theory Spec2Isabelle
  imports Complex_Main "HOL-Library.Multiset"
begin

section \<open>Strings, numbers and addresses\<close>

type_synonym Address = string

text \<open>
  JavaScript's \<^verbatim>\<open>String.prototype.toLowerCase\<close> on the ASCII range: the letters
  \<^verbatim>\<open>A\<close> to \<^verbatim>\<open>Z\<close> (codes 65 to 90) move up by 32, every other character stays.
\<close>

definition lowerChar :: "char \<Rightarrow> char" where
  "lowerChar c =
     (let n = (of_char c :: nat) in if 65 \<le> n \<and> n \<le> 90 then char_of (n + 32) else c)"

definition toLowerCase :: "string \<Rightarrow> string" where
  "toLowerCase s = map lowerChar s"

text \<open>The value of one hexadecimal digit, in either case; \<open>None\<close> for any other character.\<close>

definition hexDigit :: "char \<Rightarrow> nat option" where
  "hexDigit c =
     (let n = (of_char c :: nat) in
      if 48 \<le> n \<and> n \<le> 57 then Some (n - 48)
      else if 97 \<le> n \<and> n \<le> 102 then Some (n - 87)
      else if 65 \<le> n \<and> n \<le> 70 then Some (n - 55)
      else None)"

definition decDigit :: "char \<Rightarrow> nat option" where
  "decDigit c =
     (let n = (of_char c :: nat) in if 48 \<le> n \<and> n \<le> 57 then Some (n - 48) else None)"

text \<open>
  Reading a digit string in a base, most significant digit first. The accumulator is the
  value read so far; one character that is not a digit makes the whole string invalid.
\<close>

fun parseDigits :: "nat \<Rightarrow> (char \<Rightarrow> nat option) \<Rightarrow> nat \<Rightarrow> string \<Rightarrow> nat option" where
  "parseDigits base dig acc [] = Some acc"
| "parseDigits base dig acc (c # cs) =
     (case dig c of
        None \<Rightarrow> None
      | Some d \<Rightarrow> parseDigits base dig (base * acc + d) cs)"

text \<open>
  The constructor of the arbitrary-precision number library (\<^verbatim>\<open>new BigNumber(s)\<close>) on the
  strings this module passes to it: a string with the prefix \<^verbatim>\<open>0x\<close> and at least one
  digit is read as a hexadecimal integer, a non-empty string of decimal digits as a decimal
  integer. Every other string is \<^verbatim>\<open>NaN\<close>, here \<open>None\<close>; signs, fractions and exponents,
  which no address has, are not modelled and fall under \<open>None\<close> as well.
\<close>

definition BigNumber :: "string \<Rightarrow> nat option" where
  "BigNumber s =
     (if take 2 s = ''0x'' \<or> take 2 s = ''0X'' then
        (if drop 2 s = [] then None else parseDigits 16 hexDigit 0 (drop 2 s))
      else if s = [] then None
      else parseDigits 10 decDigit 0 s)"

text \<open>\<^verbatim>\<open>x.modulo(10)\<close>: the remainder of a non-negative integer; \<^verbatim>\<open>NaN\<close> stays \<^verbatim>\<open>NaN\<close>.\<close>

definition modulo :: "nat option \<Rightarrow> nat \<Rightarrow> nat option" where
  "modulo x m = (case x of None \<Rightarrow> None | Some n \<Rightarrow> if m = 0 then None else Some (n mod m))"

definition digitChar :: "nat \<Rightarrow> char" where
  "digitChar d = char_of (48 + d)"

text \<open>The decimal representation of a natural number, as a template literal prints it.\<close>

function showNat :: "nat \<Rightarrow> string" where
  "showNat n = (if n < 10 then [digitChar n] else showNat (n div 10) @ [digitChar (n mod 10)])"
  by pat_completeness auto
termination
  by (relation "measure (\<lambda>n. n)") auto

declare showNat.simps [simp del]

text \<open>
  \<^verbatim>\<open>function hashAddressToSingleDigit(address: Address): number {
    return new BigNumber(address.toLowerCase()).modulo(10).toNumber()
  }\<close>
\<close>

definition hashAddressToSingleDigit :: "Address \<Rightarrow> nat option" where
  "hashAddressToSingleDigit address = modulo (BigNumber (toLowerCase address)) 10"

text \<open>
  \<^verbatim>\<open>export function getSecurityCodePrefix(issuerAddress: Address) {
    return `${hashAddressToSingleDigit(issuerAddress)}`
  }\<close>
\<close>

definition getSecurityCodePrefix :: "Address \<Rightarrow> string" where
  "getSecurityCodePrefix issuerAddress =
     (case hashAddressToSingleDigit issuerAddress of
        None \<Rightarrow> ''NaN''
      | Some n \<Rightarrow> showNat n)"

text \<open>
  An address: the prefix \<^verbatim>\<open>0x\<close> followed by forty hexadecimal digits, in either case.
\<close>

definition isHexDigit :: "char \<Rightarrow> bool" where
  "isHexDigit c = (hexDigit c \<noteq> None)"

definition isAddress :: "string \<Rightarrow> bool" where
  "isAddress a = (take 2 a = ''0x'' \<and> length a = 42 \<and> list_all isHexDigit (drop 2 a))"

text \<open>
  The numeric value of an address, written from the words of the specification: its forty
  hexadecimal digits read as one number, the case of a digit making no difference.
\<close>

definition addressValue :: "Address \<Rightarrow> nat" where
  "addressValue a = foldl (\<lambda>acc c. 16 * acc + the (hexDigit c)) 0 (drop 2 a)"

section \<open>The collaborators: contracts, network and clock\<close>

text \<open>
  A thrown value: an \<^verbatim>\<open>Error\<close> with its message and, for the errors of the metadata
  fetcher, the \<^verbatim>\<open>type\<close> field that tells a system failure from a content failure.
\<close>

datatype Exn = Exn (exn_type: "string option") (exn_message: string)

text \<open>
  What this module reads from a fetched identity-metadata document:
  \<^verbatim>\<open>metadata.findClaim(ClaimTypes.ATTESTATION_SERVICE_URL)\<close> (its \<^verbatim>\<open>url\<close>) and
  \<^verbatim>\<open>metadata.findClaim(ClaimTypes.NAME)\<close> (its \<^verbatim>\<open>name\<close>); \<open>None\<close> is \<^verbatim>\<open>undefined\<close>.
\<close>

record IdentityMetadata =
  attestationServiceURLClaim :: "string option"
  nameClaim :: "string option"

text \<open>
  A JavaScript number: a double is a rational number, an infinity or \<^verbatim>\<open>NaN\<close>.
\<close>

datatype JsNumber = JsNaN | JsFinite rat | JsPosInfinity | JsNegInfinity

text \<open>
  A JavaScript value as \<^verbatim>\<open>JSON.parse\<close> produces it, and \<^verbatim>\<open>undefined\<close> for a property
  that an object does not have.
\<close>

datatype JsValue =
  JUndefined
| JNull
| JBool bool
| JNumber JsNumber
| JString string
| JArray "JsValue list"
| JObject "(string \<times> JsValue) list"

text \<open>
  The conversions of the JavaScript engine that the wrapper relies on and does not define:
  the number a string converts to, and the string an array or an object converts to.
\<close>

record JsRuntime =
  stringToNumber :: "string \<Rightarrow> JsNumber"
  objectToString :: "JsValue \<Rightarrow> string"

text \<open>\<^verbatim>\<open>ToNumber\<close>, the conversion that a comparison with a number applies to its operand.\<close>

fun toNumber :: "JsRuntime \<Rightarrow> JsValue \<Rightarrow> JsNumber" where
  "toNumber rt JUndefined = JsNaN"
| "toNumber rt JNull = JsFinite 0"
| "toNumber rt (JBool b) = JsFinite (if b then 1 else 0)"
| "toNumber rt (JNumber n) = n"
| "toNumber rt (JString s) = stringToNumber rt s"
| "toNumber rt (JArray xs) = stringToNumber rt (objectToString rt (JArray xs))"
| "toNumber rt (JObject kvs) = stringToNumber rt (objectToString rt (JObject kvs))"

text \<open>\<^verbatim>\<open>a > b\<close> on numbers: false as soon as one of them is \<^verbatim>\<open>NaN\<close>.\<close>

fun numberGreater :: "JsNumber \<Rightarrow> JsNumber \<Rightarrow> bool" where
  "numberGreater JsNaN b = False"
| "numberGreater a JsNaN = False"
| "numberGreater JsNegInfinity b = False"
| "numberGreater JsPosInfinity b = (b \<noteq> JsPosInfinity)"
| "numberGreater (JsFinite x) JsPosInfinity = False"
| "numberGreater (JsFinite x) JsNegInfinity = True"
| "numberGreater (JsFinite x) (JsFinite y) = (y < x)"

text \<open>\<^verbatim>\<open>value > n\<close> for a value of any type and a number literal \<open>n\<close>.\<close>

definition jsGreaterThan :: "JsRuntime \<Rightarrow> JsValue \<Rightarrow> rat \<Rightarrow> bool" where
  "jsGreaterThan rt x n = numberGreater (toNumber rt x) (JsFinite n)"

text \<open>
  A value in a condition: \<^verbatim>\<open>undefined\<close>, \<^verbatim>\<open>null\<close>, \<^verbatim>\<open>false\<close>, zero, \<^verbatim>\<open>NaN\<close> and the
  empty string are falsy, every other value is truthy.
\<close>

fun truthy :: "JsValue \<Rightarrow> bool" where
  "truthy JUndefined = False"
| "truthy JNull = False"
| "truthy (JBool b) = b"
| "truthy (JNumber n) = (n \<noteq> JsNaN \<and> n \<noteq> JsFinite 0)"
| "truthy (JString s) = (s \<noteq> [])"
| "truthy (JArray xs) = True"
| "truthy (JObject kvs) = True"

text \<open>
  The JSON body of an issuer's \<^verbatim>\<open>status\<close> or \<^verbatim>\<open>healthz\<close> answer, as the properties that
  the wrapper reads from it. A body may be any JSON value: a property that the body does
  not have is \<open>JUndefined\<close>, and a body that is not an object has none of them.
  Three properties are only compared or passed to a string method, and are kept as far as
  that can tell: \<open>b_status\<close> is \<open>Some s\<close> for the string \<open>s\<close>, \<open>b_accountAddress\<close> is
  \<open>Some a\<close> for the string \<open>a\<close>, \<open>b_isNodeSyncing\<close> is \<open>Some b\<close> for the boolean \<open>b\<close>, and
  each is \<open>None\<close> for a value that is absent or of another type.
\<close>

record JsonBody =
  b_status :: "string option"
  b_version :: JsValue
  b_accountAddress :: "Address option"
  b_smsProviders :: JsValue
  b_ageOfLatestBlock :: JsValue
  b_isNodeSyncing :: "bool option"
  b_smsProvidersRandomized :: JsValue
  b_maxDeliveryAttempts :: JsValue
  b_maxRerequestMins :: JsValue
  b_twilioVerifySidProvided :: JsValue
  b_error :: JsValue

text \<open>
  An HTTP response: \<^verbatim>\<open>resp.ok\<close>, \<^verbatim>\<open>resp.status\<close> and the result of \<^verbatim>\<open>await resp.json()\<close>,
  which throws on a body that is not JSON and yields \<open>None\<close> for the JSON value \<^verbatim>\<open>null\<close>.
\<close>

record Response =
  ok :: bool
  status :: nat
  json :: "Exn + JsonBody option"

text \<open>
  The four components of the contract's \<^verbatim>\<open>getCompletableAttestations\<close> answer, the numeric
  ones after \<^verbatim>\<open>valueToInt\<close>: block numbers, issuers, the lengths of the metadata URLs and
  the concatenated bytes of the metadata URLs.
\<close>

record GetCompletableAttestationsResponse =
  r0 :: "int list"
  r1 :: "Address list"
  r2 :: "nat list"
  r3 :: string

record UnselectedRequest =
  u_blockNumber :: int
  attestationsRequested :: int
  attestationRequestFeeToken :: string

text \<open>
  The contract's \<^verbatim>\<open>batchGetAttestationStats\<close> answer after \<^verbatim>\<open>valueToInt\<close>: match counts (one
  per identifier), and the flat arrays of addresses, completed counts and total counts.
\<close>

record BatchStats =
  stats0 :: "nat list"
  stats1 :: "Address list"
  stats2 :: "int list"
  stats3 :: "int list"

record Signature =
  sig_v :: nat
  sig_r :: string
  sig_s :: string

text \<open>The Accounts contract wrapper (\<^verbatim>\<open>this.kit.contracts.getAccounts()\<close>).\<close>

record Accounts =
  hasAuthorizedAttestationSigner :: "Address \<Rightarrow> bool"
  getAttestationSigner :: "Address \<Rightarrow> Address"
  getMetadataURL :: "Address \<Rightarrow> string"

text \<open>The Attestations contract's view methods (\<^verbatim>\<open>this.contract.methods\<close>).\<close>

record AttestationsContract =
  getCompletableAttestations :: "string \<Rightarrow> Address \<Rightarrow> Exn + GetCompletableAttestationsResponse"
  getUnselectedRequest :: "string \<Rightarrow> Address \<Rightarrow> UnselectedRequest"
  selectIssuersWaitBlocks :: int
  batchGetAttestationStats :: "string list \<Rightarrow> BatchStats"

text \<open>
  The network: \<^verbatim>\<open>IdentityMetadataWrapper.fetchFromURL(kit, url, tries)\<close> and \<^verbatim>\<open>fetch(url)\<close>,
  each either throwing or answering.
\<close>

record Network =
  fetchFromURL :: "string \<Rightarrow> nat \<Rightarrow> Exn + IdentityMetadata"
  fetch :: "string \<Rightarrow> Exn + Response"

text \<open>
  The clock and the node: \<open>dateNow k\<close> is what the \<open>k\<close>-th call of \<^verbatim>\<open>Date.now()\<close> returns
  (milliseconds), \<open>getBlockNumber k\<close> what the \<open>k\<close>-th call of
  \<^verbatim>\<open>this.kit.connection.getBlockNumber()\<close> returns. Nothing is assumed of either.
\<close>

record Connection =
  dateNow :: "nat \<Rightarrow> int"
  getBlockNumber :: "nat \<Rightarrow> int"

text \<open>
  The signing primitives behind \<^verbatim>\<open>AttestationUtils\<close> and \<^verbatim>\<open>SignatureUtils\<close>:
  the canonical message of an identifier and an account, the decoding of a code into
  its \<open>(v, r, s)\<close> components (\<open>None\<close> for a code that is not a well-formed signature), and
  the address that signed a message, recovered from the components.
\<close>

record SigningPrimitives =
  getAttestationMessageToSignFromIdentifier :: "string \<Rightarrow> Address \<Rightarrow> string"
  decodeSignature :: "string \<Rightarrow> Signature option"
  recoverSigner :: "string \<Rightarrow> Signature \<Rightarrow> Address"

record Kit =
  accounts :: Accounts
  contract :: AttestationsContract
  network :: Network
  connection :: Connection
  signing :: SigningPrimitives
  runtime :: JsRuntime

section \<open>Helpers of the base library\<close>

text \<open>
  Modelled from the spec: \<^verbatim>\<open>parseSolidityStringArray\<close> of \<^verbatim>\<open>@celo/base/lib/parsing\<close> is
  not among the sources. The specification: a string array is an integer-length array
  plus one concatenated byte blob; decoding slices sequentially by length, in array order.
\<close>

fun parseSolidityStringArray :: "nat list \<Rightarrow> string \<Rightarrow> string list" where
  "parseSolidityStringArray [] data = []"
| "parseSolidityStringArray (len # lens) data =
     take len data # parseSolidityStringArray lens (drop len data)"

text \<open>
  Modelled from the spec: \<^verbatim>\<open>zip3\<close> of \<^verbatim>\<open>@celo/base/lib/collections\<close> is not among the
  sources. It pairs three parallel arrays into triples, position by position.
\<close>

definition zip3 :: "'a list \<Rightarrow> 'b list \<Rightarrow> 'c list \<Rightarrow> ('a \<times> 'b \<times> 'c) list" where
  "zip3 as bs cs = zip as (zip bs cs)"

text \<open>
  Modelled from the spec: \<^verbatim>\<open>notEmpty\<close> of \<^verbatim>\<open>@celo/base/lib/collections\<close> is not among the
  sources. It keeps the values that are neither \<^verbatim>\<open>null\<close> nor \<^verbatim>\<open>undefined\<close>.
\<close>

definition notEmpty :: "'a option \<Rightarrow> bool" where
  "notEmpty x = (x \<noteq> None)"

text \<open>
  Awaiting a list of promises in order: the first rejection rejects the whole, otherwise
  the results come in the order of the promises.
\<close>

fun awaitAll :: "(Exn + 'b) list \<Rightarrow> Exn + 'b list" where
  "awaitAll [] = Inr []"
| "awaitAll (p # ps) =
     (case p of
        Inl e \<Rightarrow> Inl e
      | Inr y \<Rightarrow> (case awaitAll ps of Inl e \<Rightarrow> Inl e | Inr ys \<Rightarrow> Inr (y # ys)))"

text \<open>
  Modelled from the spec: \<^verbatim>\<open>concurrentMap\<close> of \<^verbatim>\<open>@celo/base/lib/async\<close> is not among the
  sources. The specification: a bounded-concurrency map, at most \<open>concurrency\<close> probes in
  flight at any time, input order preserved in the output. The bound schedules the probes
  and does not change the result; a probe that rejects rejects the map.
\<close>

definition concurrentMap :: "nat \<Rightarrow> 'a list \<Rightarrow> ('a \<Rightarrow> Exn + 'b) \<Rightarrow> Exn + 'b list" where
  "concurrentMap concurrency xs mapFn = awaitAll (map mapFn xs)"

text \<open>
  Modelled from the spec: \<^verbatim>\<open>appendPath\<close> of \<^verbatim>\<open>@celo/base/lib/string\<close> is not among the
  sources. The issuer's endpoints are \<^verbatim>\<open>{serviceURL}/status\<close> and \<^verbatim>\<open>{serviceURL}/healthz\<close>;
  a base that already ends in a slash gets no second one.
\<close>

definition appendPath :: "string \<Rightarrow> string \<Rightarrow> string" where
  "appendPath baseUrl path =
     (if baseUrl \<noteq> [] \<and> last baseUrl = CHR ''/'' then baseUrl @ path
      else baseUrl @ ''/'' @ path)"

text \<open>
  Modelled from the spec: \<^verbatim>\<open>eqAddress\<close> of \<^verbatim>\<open>@celo/base/lib/address\<close> is not among the
  sources. The specification compares the reported account address to the expected
  validator address case-insensitively; a leading \<^verbatim>\<open>0x\<close> makes no difference. It
  normalises both arguments with the methods of a string (\<^verbatim>\<open>startsWith\<close>,
  \<^verbatim>\<open>toLowerCase\<close>), so it is defined on strings; called with a value that is not a
  string it throws a \<^verbatim>\<open>TypeError\<close>, which is written out where it is called with a value
  read from a response.
\<close>

definition trimLeading0x :: "string \<Rightarrow> string" where
  "trimLeading0x input = (if take 2 input = ''0x'' then drop 2 input else input)"

definition eqAddress :: "Address \<Rightarrow> Address \<Rightarrow> bool" where
  "eqAddress a b = (toLowerCase (trimLeading0x a) = toLowerCase (trimLeading0x b))"

section \<open>Completable attestations and the issuer probe\<close>

record CompletableAttestation =
  c_blockNumber :: int
  c_issuer :: Address
  c_metadataURL :: string

record ActionableAttestation =
  issuer :: Address
  blockNumber :: int
  attestationServiceURL :: string
  name :: "string option"
  version :: JsValue

text \<open>
  \<^verbatim>\<open>type AttestationServiceRunningCheckResult =
    | { isValid: true; result: ActionableAttestation }
    | { isValid: false; issuer: Address }\<close>
\<close>

datatype AttestationServiceRunningCheckResult =
  IsValidTrue ActionableAttestation
| IsValidFalse Address

text \<open>
  \<^verbatim>\<open>function parseGetCompletableAttestations(response) {
    const metadataURLs = parseSolidityStringArray(response[2].map(valueToInt), response[3])
    return zip3(response[0].map(valueToInt), response[1], metadataURLs)
      .map(([blockNumber, issuer, metadataURL]) => ({ blockNumber, issuer, metadataURL }))
  }\<close>
\<close>

definition parseGetCompletableAttestations ::
  "GetCompletableAttestationsResponse \<Rightarrow> CompletableAttestation list" where
  "parseGetCompletableAttestations response =
     (let metadataURLs = parseSolidityStringArray (r2 response) (r3 response) in
      map (\<lambda>(blockNumber, issuer, metadataURL).
             \<lparr>c_blockNumber = blockNumber, c_issuer = issuer, c_metadataURL = metadataURL\<rparr>)
          (zip3 (r0 response) (r1 response) metadataURLs))"

text \<open>
  The URL the probe fetches:
  \<^verbatim>\<open>`${claim.url}${claim.url.substr(-1) === '/' ? '' : '/'}status`\<close>.
\<close>

definition statusURL :: "string \<Rightarrow> string" where
  "statusURL url =
     url @ (if url \<noteq> [] \<and> last url = CHR ''/'' then [] else ''/'') @ ''status''"

text \<open>
  The body of the \<^verbatim>\<open>try\<close> block of the probe that \<^verbatim>\<open>makeIsIssuerRunningAttestationService\<close>
  returns. \<open>Inl\<close> is an exception leaving the block: a rejected metadata fetch, the
  \<^verbatim>\<open>throw\<close> for a missing claim, a rejected \<^verbatim>\<open>fetch\<close>, the \<^verbatim>\<open>throw\<close> for a response that is
  not ok, a rejected \<^verbatim>\<open>resp.json()\<close>, or the destructuring of a \<^verbatim>\<open>null\<close> body.
\<close>

definition isIssuerRunningAttestationService_try ::
  "Kit \<Rightarrow> nat \<Rightarrow> CompletableAttestation \<Rightarrow> Exn + AttestationServiceRunningCheckResult" where
  "isIssuerRunningAttestationService_try kit tries arg =
     (case fetchFromURL (network kit) (c_metadataURL arg) tries of
        Inl e \<Rightarrow> Inl e
      | Inr metadata \<Rightarrow>
          (case attestationServiceURLClaim metadata of
             None \<Rightarrow>
               Inl (Exn None (''No attestation service URL registered for '' @ c_issuer arg))
           | Some url \<Rightarrow>
               (case fetch (network kit) (statusURL url) of
                  Inl e \<Rightarrow> Inl e
                | Inr resp \<Rightarrow>
                    if \<not> ok resp then
                      Inl (Exn None (''Request failed with status '' @ showNat (status resp)))
                    else
                      (case json resp of
                         Inl e \<Rightarrow> Inl e
                       | Inr None \<Rightarrow>
                           Inl (Exn None ''Cannot destructure property of null'')
                       | Inr (Some body) \<Rightarrow>
                           if b_status body \<noteq> Some ''ok'' then
                             Inr (IsValidFalse (c_issuer arg))
                           else
                             Inr (IsValidTrue
                                   \<lparr>issuer = c_issuer arg,
                                    blockNumber = c_blockNumber arg,
                                    attestationServiceURL = url,
                                    name = nameClaim metadata,
                                    version = b_version body\<rparr>)))))"

text \<open>
  The probe itself, an asynchronous function: \<open>Inr\<close> is the value its promise resolves
  to, \<open>Inl\<close> a rejection. The \<^verbatim>\<open>catch\<close> clause turns every exception of the block into
  \<^verbatim>\<open>{ isValid: false, issuer: arg.issuer }\<close>.
\<close>

definition makeIsIssuerRunningAttestationService ::
  "Kit \<Rightarrow> nat \<Rightarrow> CompletableAttestation \<Rightarrow> Exn + AttestationServiceRunningCheckResult" where
  "makeIsIssuerRunningAttestationService kit tries arg =
     (case isIssuerRunningAttestationService_try kit tries arg of
        Inl error \<Rightarrow> Inr (IsValidFalse (c_issuer arg))
      | Inr r \<Rightarrow> Inr r)"

text \<open>
  \<^verbatim>\<open>async getActionableAttestations(identifier, account, tries = 3) {
    const result = await this.contract.methods.getCompletableAttestations(identifier, account).call()
    const results = await concurrentMap(5, parseGetCompletableAttestations(result),
      this.makeIsIssuerRunningAttestationService(tries))
    return results.map((_) => (_.isValid ? _.result : null)).filter(notEmpty)
  }\<close>
\<close>

definition getActionableAttestations ::
  "Kit \<Rightarrow> string \<Rightarrow> Address \<Rightarrow> nat \<Rightarrow> Exn + ActionableAttestation list" where
  "getActionableAttestations kit identifier account tries =
     (case getCompletableAttestations (contract kit) identifier account of
        Inl e \<Rightarrow> Inl e
      | Inr result \<Rightarrow>
          (case concurrentMap 5 (parseGetCompletableAttestations result)
                  (makeIsIssuerRunningAttestationService kit tries) of
             Inl e \<Rightarrow> Inl e
           | Inr results \<Rightarrow>
               Inr (map the (filter notEmpty
                      (map (\<lambda>x. case x of IsValidTrue a \<Rightarrow> Some a | IsValidFalse _ \<Rightarrow> None)
                           results)))))"

text \<open>
  \<^verbatim>\<open>async getNonCompliantIssuers(identifier, account, tries = 3) {
    const result = await this.contract.methods.getCompletableAttestations(identifier, account).call()
    const withAttestationServiceURLs = await concurrentMap(5,
      parseGetCompletableAttestations(result), this.makeIsIssuerRunningAttestationService(tries))
    return withAttestationServiceURLs.map((_) => (_.isValid ? null : _.issuer)).filter(notEmpty)
  }\<close>
\<close>

definition getNonCompliantIssuers ::
  "Kit \<Rightarrow> string \<Rightarrow> Address \<Rightarrow> nat \<Rightarrow> Exn + Address list" where
  "getNonCompliantIssuers kit identifier account tries =
     (case getCompletableAttestations (contract kit) identifier account of
        Inl e \<Rightarrow> Inl e
      | Inr result \<Rightarrow>
          (case concurrentMap 5 (parseGetCompletableAttestations result)
                  (makeIsIssuerRunningAttestationService kit tries) of
             Inl e \<Rightarrow> Inl e
           | Inr withAttestationServiceURLs \<Rightarrow>
               Inr (map the (filter notEmpty
                      (map (\<lambda>x. case x of IsValidTrue _ \<Rightarrow> None | IsValidFalse i \<Rightarrow> Some i)
                           withAttestationServiceURLs)))))"

text \<open>The issuer a check result speaks about, in either of its two shapes.\<close>

definition checkIssuer :: "AttestationServiceRunningCheckResult \<Rightarrow> Address" where
  "checkIssuer x = (case x of IsValidTrue a \<Rightarrow> issuer a | IsValidFalse i \<Rightarrow> i)"

section \<open>Completing an attestation\<close>

text \<open>
  The transaction object \<^verbatim>\<open>this.contract.methods.complete(identifier, v, r, s)\<close>.
\<close>

datatype CeloTransactionObject = CompleteTx string nat string string

definition verificationError :: "Address \<Rightarrow> Exn" where
  "verificationError expectedSigner =
     Exn None (''Unable to parse signature (expected signer '' @ expectedSigner @ '')'')"

text \<open>
  Modelled from the spec: \<^verbatim>\<open>SignatureUtils.parseSignature\<close> of \<^verbatim>\<open>@celo/utils\<close> is not among
  the sources. The specification: \<^verbatim>\<open>parseSignature(message, code, expectedSigner)\<close>
  recovers the signer from \<open>code\<close> over \<open>message\<close>; it fails (throws) if the recovered signer
  is not \<open>expectedSigner\<close> or if \<open>code\<close> is not a well-formed signature.
\<close>

definition parseSignature ::
  "SigningPrimitives \<Rightarrow> string \<Rightarrow> string \<Rightarrow> Address \<Rightarrow> Exn + Signature" where
  "parseSignature prims message code expectedSigner =
     (case decodeSignature prims code of
        None \<Rightarrow> Inl (verificationError expectedSigner)
      | Some sg \<Rightarrow>
          if recoverSigner prims message sg \<noteq> expectedSigner
          then Inl (verificationError expectedSigner)
          else Inr sg)"

text \<open>
  \<^verbatim>\<open>async complete(identifier, account, issuer, code) {
    const accounts = await this.kit.contracts.getAccounts()
    const attestationSigner = await accounts.getAttestationSigner(issuer)
    const expectedSourceMessage =
      AttestationUtils.getAttestationMessageToSignFromIdentifier(identifier, account)
    const { r, s, v } = SignatureUtils.parseSignature(expectedSourceMessage, code, attestationSigner)
    return toTransactionObject(this.kit.connection,
      this.contract.methods.complete(identifier, v, r, s))
  }\<close>
\<close>

definition complete ::
  "Kit \<Rightarrow> string \<Rightarrow> Address \<Rightarrow> Address \<Rightarrow> string \<Rightarrow> Exn + CeloTransactionObject" where
  "complete kit identifier account issuer' code =
     (let attestationSigner = getAttestationSigner (accounts kit) issuer';
          expectedSourceMessage =
            getAttestationMessageToSignFromIdentifier (signing kit) identifier account
      in case parseSignature (signing kit) expectedSourceMessage code attestationSigner of
           Inl e \<Rightarrow> Inl e
         | Inr sg \<Rightarrow> Inr (CompleteTx identifier (sig_v sg) (sig_r sg) (sig_s sg)))"

text \<open>
  A code is a valid signature over a message by an address, in the words of the
  specification: the code is a well-formed signature and the signer recovered from it over
  the message is that address.
\<close>

definition isValidSignatureBy :: "SigningPrimitives \<Rightarrow> string \<Rightarrow> string \<Rightarrow> Address \<Rightarrow> bool" where
  "isValidSignatureBy prims message code signer =
     (case decodeSignature prims code of
        None \<Rightarrow> False
      | Some sg \<Rightarrow> recoverSigner prims message sg = signer)"

section \<open>Waiting for the selection window\<close>

text \<open>
  What a call has done to the outside so far: how often it has read the clock, how often
  it has polled the block height, and the sleeps it has made (milliseconds, in order).
\<close>

record Trace =
  nowCalls :: nat
  blockCalls :: nat
  sleeps :: "int list"

text \<open>
  The loop of \<open>waitForSelectingIssuers\<close>:
  \<^verbatim>\<open>while (Date.now() - startTime < timeoutSeconds * 1000) {
    const blockNumber = await this.kit.connection.getBlockNumber()
    if (blockNumber >= unselectedRequest.blockNumber + waitBlocks) { return }
    await sleep(pollDurationSeconds * 1000)
  }
  throw new Error('Timeout while waiting for selecting issuers')\<close>
  It need not end (a clock that stands still, a block height that never arrives), so its
  result is an option: \<open>None\<close> is a loop that runs forever.
\<close>

partial_function (option) waitForSelectingIssuers_loop ::
  "Connection \<Rightarrow> int \<Rightarrow> int \<Rightarrow> int \<Rightarrow> int \<Rightarrow> Trace \<Rightarrow> ((Exn + unit) \<times> Trace) option" where
  "waitForSelectingIssuers_loop conn startTime timeoutSeconds pollDurationSeconds required t =
     (if dateNow conn (nowCalls t) - startTime < timeoutSeconds * 1000 then
        (if getBlockNumber conn (blockCalls t) \<ge> required then
           Some (Inr (), t\<lparr>nowCalls := nowCalls t + 1, blockCalls := blockCalls t + 1\<rparr>)
         else
           waitForSelectingIssuers_loop conn startTime timeoutSeconds pollDurationSeconds required
             (t\<lparr>nowCalls := nowCalls t + 1, blockCalls := blockCalls t + 1,
                sleeps := sleeps t @ [pollDurationSeconds * 1000]\<rparr>))
      else
        Some (Inl (Exn None ''Timeout while waiting for selecting issuers''),
              t\<lparr>nowCalls := nowCalls t + 1\<rparr>))"

text \<open>
  \<^verbatim>\<open>waitForSelectingIssuers = async (identifier, account, timeoutSeconds = 120,
                                     pollDurationSeconds = 1) => {
    const startTime = Date.now()
    const unselectedRequest = await this.getUnselectedRequest(identifier, account)
    const waitBlocks = await this.selectIssuersWaitBlocks()
    if (unselectedRequest.blockNumber === 0) {
      throw new Error('No unselectedRequest to wait for')
    }
    while ... }\<close>
  The two reads of the contract are taken to answer. Seconds are whole numbers.
\<close>

definition waitForSelectingIssuers ::
  "Kit \<Rightarrow> string \<Rightarrow> Address \<Rightarrow> int \<Rightarrow> int \<Rightarrow> Trace \<Rightarrow> ((Exn + unit) \<times> Trace) option" where
  "waitForSelectingIssuers kit identifier account timeoutSeconds pollDurationSeconds t =
     (let startTime = dateNow (connection kit) (nowCalls t);
          t1 = t\<lparr>nowCalls := nowCalls t + 1\<rparr>;
          unselectedRequest = getUnselectedRequest (contract kit) identifier account;
          waitBlocks = selectIssuersWaitBlocks (contract kit)
      in if u_blockNumber unselectedRequest = 0 then
           Some (Inl (Exn None ''No unselectedRequest to wait for''), t1)
         else
           waitForSelectingIssuers_loop (connection kit) startTime timeoutSeconds
             pollDurationSeconds (u_blockNumber unselectedRequest + waitBlocks) t1)"

section \<open>The status of an attestation service\<close>

datatype AttestationServiceStatusState =
  NoAttestationSigner
| NoMetadataURL
| InvalidMetadata
| NoAttestationServiceURL
| InvalidAttestationServiceURL
| UnreachableAttestationService
| Valid
| UnreachableHealthz
| Unhealthy
| WrongAccount
| MetadataTimeout

text \<open>The \<^verbatim>\<open>error\<close> field: a caught exception, or the error a \<^verbatim>\<open>healthz\<close> body reports.\<close>

datatype ErrorValue = Thrown Exn | Reported JsValue

record Validator =
  v_name :: string
  address :: Address
  ecdsaPublicKey :: string
  blsPublicKey :: string
  affiliation :: "string option"
  score :: int
  signer :: string

text \<open>
  \<^verbatim>\<open>AttestationServiceStatusResponse\<close>; the field \<open>validator\<close> holds what the spread
  \<^verbatim>\<open>...validator\<close> copies. The fields that are copied from the status body hold whatever
  value the body has there.
\<close>

record AttestationServiceStatusResponse =
  validator :: Validator
  hasAttestationSigner :: bool
  attestationSigner :: string
  s_attestationServiceURL :: "string option"
  okStatus :: bool
  error :: "ErrorValue option"
  smsProviders :: JsValue
  blacklistedRegionCodes :: "string list option"
  rightAccount :: bool
  metadataURL :: "string option"
  state :: AttestationServiceStatusState
  s_version :: JsValue
  ageOfLatestBlock :: JsValue
  smsProvidersRandomized :: JsValue
  maxDeliveryAttempts :: JsValue
  maxRerequestMins :: JsValue
  twilioVerifySidProvided :: JsValue

text \<open>
  The inner \<^verbatim>\<open>try\<close> of \<open>getAttestationServiceStatus\<close>:
  \<^verbatim>\<open>try {
    const healthzResponse = await fetch(appendPath(attestationServiceURL, 'healthz'))
    const healthzResponseBody = await healthzResponse.json()
    if (!healthzResponse.ok) {
      ret.state = AttestationServiceStatusState.Unhealthy
      if (healthzResponseBody.error) { ret.error = healthzResponseBody.error }
    }
  } catch (error) {
    ret.state = AttestationServiceStatusState.UnreachableHealthz
  }\<close>
  A \<^verbatim>\<open>null\<close> body of a response that is not ok throws at \<^verbatim>\<open>healthzResponseBody.error\<close>.
\<close>

definition healthzStep ::
  "Kit \<Rightarrow> string \<Rightarrow> AttestationServiceStatusResponse \<Rightarrow> AttestationServiceStatusResponse" where
  "healthzStep kit serviceURL ret =
     (case fetch (network kit) (appendPath serviceURL ''healthz'') of
        Inl e \<Rightarrow> ret\<lparr>state := UnreachableHealthz\<rparr>
      | Inr healthzResponse \<Rightarrow>
          (case json healthzResponse of
             Inl e \<Rightarrow> ret\<lparr>state := UnreachableHealthz\<rparr>
           | Inr healthzResponseBody \<Rightarrow>
               if \<not> ok healthzResponse then
                 (case healthzResponseBody of
                    None \<Rightarrow> ret\<lparr>state := UnreachableHealthz\<rparr>
                  | Some b \<Rightarrow>
                      if truthy (b_error b)
                      then ret\<lparr>state := Unhealthy, error := Some (Reported (b_error b))\<rparr>
                      else ret\<lparr>state := Unhealthy\<rparr>)
               else ret))"

text \<open>
  The outer \<^verbatim>\<open>try\<close> of \<open>getAttestationServiceStatus\<close>, from the fetch of the status endpoint
  to the end; its \<^verbatim>\<open>catch\<close> sets \<open>UnreachableAttestationService\<close> and the error on the
  response as it stands when the exception is thrown. Three statements of the block can
  throw after the response was found ok: \<^verbatim>\<open>await statusResponse.json()\<close>, the first read
  of a property of a \<^verbatim>\<open>null\<close> body, and
  \<^verbatim>\<open>eqAddress(validator.address, statusResponseBody.accountAddress)\<close> for an account address
  that is not a string, after \<^verbatim>\<open>ret.smsProviders\<close> has been assigned.
  The check of the full node is
  \<^verbatim>\<open>(statusResponseBody.ageOfLatestBlock !== null && statusResponseBody.ageOfLatestBlock > 10)
  || statusResponseBody.isNodeSyncing === true\<close>.
\<close>

definition statusStep ::
  "Kit \<Rightarrow> Validator \<Rightarrow> string \<Rightarrow> AttestationServiceStatusResponse
     \<Rightarrow> AttestationServiceStatusResponse" where
  "statusStep kit v serviceURL ret =
     (case fetch (network kit) (appendPath serviceURL ''status'') of
        Inl e \<Rightarrow> ret\<lparr>state := UnreachableAttestationService, error := Some (Thrown e)\<rparr>
      | Inr statusResponse \<Rightarrow>
          if \<not> ok statusResponse then ret\<lparr>state := UnreachableAttestationService\<rparr>
          else
            (case json statusResponse of
               Inl e \<Rightarrow>
                 ret\<lparr>okStatus := True, state := UnreachableAttestationService,
                     error := Some (Thrown e)\<rparr>
             | Inr None \<Rightarrow>
                 ret\<lparr>okStatus := True, state := UnreachableAttestationService,
                     error := Some (Thrown (Exn None ''Cannot read properties of null''))\<rparr>
             | Inr (Some statusResponseBody) \<Rightarrow>
                 (case b_accountAddress statusResponseBody of
                    None \<Rightarrow>
                      ret\<lparr>okStatus := True,
                          smsProviders := b_smsProviders statusResponseBody,
                          state := UnreachableAttestationService,
                          error := Some (Thrown (Exn None ''input.startsWith is not a function''))\<rparr>
                  | Some accountAddress \<Rightarrow>
                      (let right = eqAddress (address v) accountAddress;
                           ret1 = ret\<lparr>okStatus := True,
                                      smsProviders := b_smsProviders statusResponseBody,
                                      rightAccount := right,
                                      state := (if right then Valid else WrongAccount),
                                      ageOfLatestBlock := b_ageOfLatestBlock statusResponseBody,
                                      smsProvidersRandomized :=
                                        b_smsProvidersRandomized statusResponseBody,
                                      maxDeliveryAttempts :=
                                        b_maxDeliveryAttempts statusResponseBody,
                                      maxRerequestMins := b_maxRerequestMins statusResponseBody,
                                      twilioVerifySidProvided :=
                                        b_twilioVerifySidProvided statusResponseBody\<rparr>
                       in if truthy (b_version statusResponseBody) then
                            (let ret2 = healthzStep kit serviceURL
                                          (ret1\<lparr>s_version := b_version statusResponseBody\<rparr>)
                             in if (b_ageOfLatestBlock statusResponseBody \<noteq> JNull
                                    \<and> jsGreaterThan (runtime kit)
                                          (b_ageOfLatestBlock statusResponseBody) 10)
                                   \<or> b_isNodeSyncing statusResponseBody = Some True
                                then ret2\<lparr>state := Unhealthy\<rparr>
                                else ret2)
                          else ret1\<lparr>s_version := JString ''1.0.0''\<rparr>))))"

text \<open>
  \<open>getAttestationServiceStatus\<close>, lines 1041 to 1166 of the wrapper: the initial response with
  the state \<open>NoAttestationSigner\<close>, then the early returns in the order of the source.
  \<^verbatim>\<open>IdentityMetadataWrapper.fetchFromURL(this.kit, metadataURL)\<close> is called with its default
  number of tries, three.
\<close>

definition getAttestationServiceStatus ::
  "Kit \<Rightarrow> Validator \<Rightarrow> AttestationServiceStatusResponse" where
  "getAttestationServiceStatus kit v =
     (let hasSigner = hasAuthorizedAttestationSigner (accounts kit) (address v);
          ret = \<lparr>validator = v,
                 hasAttestationSigner = hasSigner,
                 attestationSigner = getAttestationSigner (accounts kit) (address v),
                 s_attestationServiceURL = None,
                 okStatus = False,
                 error = None,
                 smsProviders = JArray [],
                 blacklistedRegionCodes = Some [],
                 rightAccount = False,
                 metadataURL = None,
                 state = NoAttestationSigner,
                 s_version = JNull,
                 ageOfLatestBlock = JNull,
                 smsProvidersRandomized = JNull,
                 maxDeliveryAttempts = JNull,
                 maxRerequestMins = JNull,
                 twilioVerifySidProvided = JNull\<rparr>
      in if \<not> hasSigner then ret
         else
           (let url = getMetadataURL (accounts kit) (address v);
                ret = ret\<lparr>metadataURL := Some url\<rparr>
            in if url = [] then ret\<lparr>state := NoMetadataURL\<rparr>
               else if take 7 url = ''http://'' then ret\<lparr>state := InvalidAttestationServiceURL\<rparr>
               else
                 (case fetchFromURL (network kit) url 3 of
                    Inl e \<Rightarrow>
                      ret\<lparr>state := (if exn_type e = Some ''system'' then MetadataTimeout
                                      else InvalidMetadata),
                          error := Some (Thrown e)\<rparr>
                  | Inr metadata \<Rightarrow>
                      (case attestationServiceURLClaim metadata of
                         None \<Rightarrow> ret\<lparr>state := NoAttestationServiceURL\<rparr>
                       | Some serviceURL \<Rightarrow>
                           statusStep kit v serviceURL
                             (ret\<lparr>s_attestationServiceURL := Some serviceURL\<rparr>)))))"

section \<open>Looking identifiers up\<close>

record AttestationStat =
  completed :: "int option"
  total :: "int option"

text \<open>
  Reading an array at an index, as JavaScript does: \<^verbatim>\<open>undefined\<close>, here \<open>None\<close>, beyond
  the end.
\<close>

definition elementAt :: "'a list \<Rightarrow> nat \<Rightarrow> 'a option" where
  "elementAt xs i = (if i < length xs then Some (xs ! i) else None)"

text \<open>A property key: \<^verbatim>\<open>undefined\<close> as a key is the string \<^verbatim>\<open>undefined\<close>.\<close>

definition propertyKey :: "string option \<Rightarrow> string" where
  "propertyKey k = (case k of None \<Rightarrow> ''undefined'' | Some s \<Rightarrow> s)"

text \<open>
  The inner loop of \<open>lookupIdentifiers\<close>, by the number of iterations left:
  \<^verbatim>\<open>for (let mIndex = 0; mIndex < numberOfMatches; mIndex++) {
    const matchingAddress = addresses[rIndex]
    matchingAddresses[matchingAddress] = { completed: completed[rIndex], total: total[rIndex] }
    rIndex++
  }\<close>
  It returns the cursor \<open>rIndex\<close> and the record \<open>matchingAddresses\<close>.
\<close>

fun matchLoop ::
  "Address list \<Rightarrow> int list \<Rightarrow> int list \<Rightarrow> nat \<Rightarrow> nat \<Rightarrow> (Address \<rightharpoonup> AttestationStat)
     \<Rightarrow> nat \<times> (Address \<rightharpoonup> AttestationStat)" where
  "matchLoop addresses completed' total' 0 rIndex matchingAddresses =
     (rIndex, matchingAddresses)"
| "matchLoop addresses completed' total' (Suc left) rIndex matchingAddresses =
     matchLoop addresses completed' total' left (Suc rIndex)
       (matchingAddresses(propertyKey (elementAt addresses rIndex) \<mapsto>
          \<lparr>completed = elementAt completed' rIndex, total = elementAt total' rIndex\<rparr>))"

text \<open>
  One iteration of the outer loop, at \<open>pIndex < identifiers.length\<close>. A count that is
  \<^verbatim>\<open>undefined\<close> is not \<^verbatim>\<open>=== 0\<close> and bounds no iteration of the inner loop, so the
  identifier gets an empty record.
\<close>

definition lookupStep ::
  "string list \<Rightarrow> BatchStats \<Rightarrow> nat
     \<Rightarrow> nat \<times> (string \<rightharpoonup> (Address \<rightharpoonup> AttestationStat))
     \<Rightarrow> nat \<times> (string \<rightharpoonup> (Address \<rightharpoonup> AttestationStat))" where
  "lookupStep identifiers stats pIndex acc =
     (let rIndex = fst acc; result = snd acc; pHash = identifiers ! pIndex
      in case elementAt (stats0 stats) pIndex of
           None \<Rightarrow> (rIndex, result(pHash \<mapsto> Map.empty))
         | Some numberOfMatches \<Rightarrow>
             if numberOfMatches = 0 then (rIndex, result)
             else
               (let r = matchLoop (stats1 stats) (stats2 stats) (stats3 stats)
                          numberOfMatches rIndex Map.empty
                in (fst r, result(pHash \<mapsto> snd r))))"

text \<open>
  \<open>lookupIdentifiers\<close>: the outer loop runs \<open>pIndex\<close> from 0 to \<open>identifiers.length - 1\<close>,
  starting with the cursor \<open>rIndex = 0\<close> and the empty result. The read of the contract
  is taken to answer.
\<close>

definition lookupIdentifiers ::
  "Kit \<Rightarrow> string list \<Rightarrow> (string \<rightharpoonup> (Address \<rightharpoonup> AttestationStat))" where
  "lookupIdentifiers kit identifiers =
     (let stats = batchGetAttestationStats (contract kit) identifiers
      in snd (fold (lookupStep identifiers stats) [0..<length identifiers] (0, Map.empty)))"

text \<open>
  The cursor that belongs to the identifier at a position: the sum of the match counts of
  the identifiers before it.
\<close>

definition cursorAt :: "nat list \<Rightarrow> nat \<Rightarrow> nat" where
  "cursorAt matches p = sum_list (take p matches)"

section \<open>An example deployment\<close>

text \<open>
  Three issuers are selected for the identifier \<open>''id''\<close>. Issuer \<open>''0xA''\<close> runs a healthy
  service; the service of issuer \<open>''0xB''\<close> answers its status endpoint with HTTP 200 and
  the status \<open>''down''\<close>; the metadata of issuer \<open>''0xC''\<close> cannot be fetched. The Accounts
  contract holds no metadata URL for \<open>''0xB''\<close>.
\<close>

definition demoBody :: "string \<Rightarrow> JsonBody" where
  "demoBody st =
     \<lparr>b_status = Some st, b_version = JString ''1.1.0'', b_accountAddress = Some ''0xA'',
      b_smsProviders = JArray [JString ''twilio''], b_ageOfLatestBlock = JNumber (JsFinite 2),
      b_isNodeSyncing = Some False, b_smsProvidersRandomized = JBool False,
      b_maxDeliveryAttempts = JNumber (JsFinite 3), b_maxRerequestMins = JNumber (JsFinite 55),
      b_twilioVerifySidProvided = JBool False, b_error = JUndefined\<rparr>"

text \<open>
  Further validators: \<open>''0xD''\<close> has registered the metadata of the healthy service of
  \<open>''0xA''\<close> but has no authorized attestation signer; \<open>''0xE''\<close> has registered a metadata
  URL over \<open>http://\<close>; the services of \<open>''0xF''\<close> and \<open>''0xG''\<close> report a latest block
  that is 20 old, the first with a healthy \<^verbatim>\<open>healthz\<close> endpoint, the second with an
  unreachable one; the service of \<open>''0xH''\<close> reports the same age, a version and a healthy
  \<^verbatim>\<open>healthz\<close> endpoint, but no account address. The contract answers the lookup of the
  identifier \<open>''twice''\<close> with two matches that name the same address. The engine of the
  example converts strings of decimal digits and no others.
\<close>

definition staleBody :: "Address option \<Rightarrow> JsonBody" where
  "staleBody a =
     (demoBody ''ok'')\<lparr>b_accountAddress := a, b_ageOfLatestBlock := JNumber (JsFinite 20)\<rparr>"

definition demoValidator :: "Address \<Rightarrow> Validator" where
  "demoValidator a =
     \<lparr>v_name = ''validator'', address = a, ecdsaPublicKey = ''0x04'', blsPublicKey = ''0x05'',
      affiliation = None, score = 1, signer = a\<rparr>"

definition demoResponse :: GetCompletableAttestationsResponse where
  "demoResponse =
     \<lparr>r0 = [10, 11, 12], r1 = [''0xA'', ''0xB'', ''0xC''], r2 = [3, 3, 3], r3 = ''m/am/bm/c''\<rparr>"

definition demoNetwork :: Network where
  "demoNetwork =
     \<lparr>fetchFromURL = (\<lambda>url tries.
        if url = ''m/a'' then
          Inr \<lparr>attestationServiceURLClaim = Some ''https://a'', nameClaim = Some ''A''\<rparr>
        else if url = ''m/b'' then
          Inr \<lparr>attestationServiceURLClaim = Some ''https://b/'', nameClaim = None\<rparr>
        else if url = ''m/f'' then
          Inr \<lparr>attestationServiceURLClaim = Some ''https://f'', nameClaim = None\<rparr>
        else if url = ''m/g'' then
          Inr \<lparr>attestationServiceURLClaim = Some ''https://g'', nameClaim = None\<rparr>
        else if url = ''m/h'' then
          Inr \<lparr>attestationServiceURLClaim = Some ''https://h'', nameClaim = None\<rparr>
        else Inl (Exn (Some ''system'') ''timeout'')),
      fetch = (\<lambda>url.
        if url = ''https://a/status'' then
          Inr \<lparr>ok = True, status = 200, json = Inr (Some (demoBody ''ok''))\<rparr>
        else if url = ''https://b/status'' then
          Inr \<lparr>ok = True, status = 200, json = Inr (Some (demoBody ''down''))\<rparr>
        else if url = ''https://f/status'' then
          Inr \<lparr>ok = True, status = 200, json = Inr (Some (staleBody (Some ''0xF'')))\<rparr>
        else if url = ''https://g/status'' then
          Inr \<lparr>ok = True, status = 200, json = Inr (Some (staleBody (Some ''0xG'')))\<rparr>
        else if url = ''https://h/status'' then
          Inr \<lparr>ok = True, status = 200, json = Inr (Some (staleBody None))\<rparr>
        else if url = ''https://a/healthz'' \<or> url = ''https://f/healthz''
                \<or> url = ''https://h/healthz'' then
          Inr \<lparr>ok = True, status = 200, json = Inr (Some (demoBody ''ok''))\<rparr>
        else Inl (Exn None ''unreachable''))\<rparr>"

definition demoKit :: Kit where
  "demoKit =
     \<lparr>accounts =
        \<lparr>hasAuthorizedAttestationSigner = (\<lambda>a. a \<noteq> ''0xD''),
         getAttestationSigner = (\<lambda>a. a),
         getMetadataURL = (\<lambda>a.
           if a = ''0xA'' \<or> a = ''0xD'' then ''m/a''
           else if a = ''0xC'' then ''m/c''
           else if a = ''0xE'' then ''http://e''
           else if a = ''0xF'' then ''m/f''
           else if a = ''0xG'' then ''m/g''
           else if a = ''0xH'' then ''m/h''
           else [])\<rparr>,
      contract =
        \<lparr>getCompletableAttestations = (\<lambda>identifier account. Inr demoResponse),
         getUnselectedRequest = (\<lambda>identifier account.
           \<lparr>u_blockNumber = (if identifier = ''id'' then 100 else 0),
            attestationsRequested = 3, attestationRequestFeeToken = ''0xcUSD''\<rparr>),
         selectIssuersWaitBlocks = 4,
         batchGetAttestationStats = (\<lambda>identifiers.
           if identifiers = [''twice''] then
             \<lparr>stats0 = [2], stats1 = [''0xA1'', ''0xA1''], stats2 = [3, 1], stats3 = [3, 2]\<rparr>
           else
             \<lparr>stats0 = [2, 0], stats1 = [''0xA1'', ''0xA2''],
              stats2 = [3, 1], stats3 = [3, 2]\<rparr>)\<rparr>,
      network = demoNetwork,
      connection = \<lparr>dateNow = (\<lambda>k. 1000 * int k), getBlockNumber = (\<lambda>k. 103 + int k)\<rparr>,
      signing =
        \<lparr>getAttestationMessageToSignFromIdentifier = (\<lambda>identifier account. identifier @ account),
         decodeSignature = (\<lambda>code.
           if length code = 3 then Some \<lparr>sig_v = 27, sig_r = take 1 code, sig_s = drop 1 code\<rparr>
           else None),
         recoverSigner = (\<lambda>message sg. ''0x'' @ sig_r sg)\<rparr>,
      runtime =
        \<lparr>stringToNumber = (\<lambda>s.
           if s = [] then JsFinite 0
           else (case parseDigits 10 decDigit 0 s of
                   None \<Rightarrow> JsNaN
                 | Some n \<Rightarrow> JsFinite (of_nat n))),
         objectToString = (\<lambda>x. ''[object Object]'')\<rparr>\<rparr>"

section \<open>The security code prefix\<close>

lemma lowerChar_hexDigit: "hexDigit (lowerChar c) = hexDigit c"
proof -
  show ?thesis
  proof (cases "65 \<le> (of_char c :: nat) \<and> (of_char c :: nat) \<le> 90")
    case False
    then show ?thesis by (auto simp: lowerChar_def Let_def)
  next
    case True
    then have "of_char (char_of (of_char c + 32 :: nat)) = (of_char c + 32 :: nat)"
      by simp
    with True show ?thesis
      by (auto simp: lowerChar_def hexDigit_def Let_def)
  qed
qed

lemma parseDigits_hex_foldl:
  "list_all isHexDigit cs \<Longrightarrow>
   parseDigits 16 hexDigit acc (toLowerCase cs) =
     Some (foldl (\<lambda>acc c. 16 * acc + the (hexDigit c)) acc cs)"
proof (induction cs arbitrary: acc)
  case Nil
  then show ?case by (simp add: toLowerCase_def)
next
  case (Cons c cs)
  from Cons.prems obtain d where d: "hexDigit c = Some d"
    by (auto simp: isHexDigit_def)
  from Cons.prems have rest: "list_all isHexDigit cs" by simp
  have "parseDigits 16 hexDigit acc (toLowerCase (c # cs)) =
        parseDigits 16 hexDigit (16 * acc + d) (toLowerCase cs)"
    using d by (simp add: toLowerCase_def lowerChar_hexDigit)
  also have "\<dots> = Some (foldl (\<lambda>acc c. 16 * acc + the (hexDigit c)) (16 * acc + d) cs)"
    by (rule Cons.IH [OF rest])
  finally show ?case using d by simp
qed

lemma toLowerCase_prefix:
  "take 2 a = ''0x'' \<Longrightarrow> take 2 (toLowerCase a) = ''0x''"
proof -
  assume h: "take 2 a = ''0x''"
  have "take 2 (toLowerCase a) = toLowerCase (take 2 a)"
    by (simp add: toLowerCase_def take_map)
  also have "\<dots> = ''0x''"
    unfolding h by (simp add: toLowerCase_def lowerChar_def)
  finally show ?thesis .
qed

lemma BigNumber_address:
  assumes "isAddress a"
  shows "BigNumber (toLowerCase a) = Some (addressValue a)"
proof -
  from assms have p: "take 2 a = ''0x''" and len: "length a = 42"
    and hex: "list_all isHexDigit (drop 2 a)"
    by (simp_all add: isAddress_def)
  have d: "drop 2 (toLowerCase a) = toLowerCase (drop 2 a)"
    by (simp add: toLowerCase_def drop_map)
  have ne: "toLowerCase (drop 2 a) \<noteq> []"
    using len by (simp add: toLowerCase_def)
  show ?thesis
    using toLowerCase_prefix [OF p] ne parseDigits_hex_foldl [OF hex, of 0]
    by (simp add: BigNumber_def d addressValue_def)
qed

text \<open>
  Claim C10. For every issuer address, \<open>getSecurityCodePrefix\<close> returns a string of
  exactly one character, a decimal digit: the decimal representation of the address's
  numeric value modulo 10.
\<close>

theorem getSecurityCodePrefix_single_digit:
  assumes "isAddress issuerAddress"
  shows "getSecurityCodePrefix issuerAddress = [digitChar (addressValue issuerAddress mod 10)]
         \<and> length (getSecurityCodePrefix issuerAddress) = 1
         \<and> addressValue issuerAddress mod 10 < 10
         \<and> getSecurityCodePrefix issuerAddress = showNat (addressValue issuerAddress mod 10)"
proof -
  have lt: "addressValue issuerAddress mod 10 < 10" by simp
  have h: "hashAddressToSingleDigit issuerAddress = Some (addressValue issuerAddress mod 10)"
    by (simp add: hashAddressToSingleDigit_def BigNumber_address [OF assms] modulo_def)
  have s: "showNat (addressValue issuerAddress mod 10)
           = [digitChar (addressValue issuerAddress mod 10)]"
    using lt by (subst showNat.simps) simp
  show ?thesis
    using lt by (simp add: getSecurityCodePrefix_def h s)
qed

theorem getSecurityCodePrefix_single_digit_witness:
  "isAddress ''0x000000000000000000000000000000000000Ce1F''
   \<and> getSecurityCodePrefix ''0x000000000000000000000000000000000000Ce1F'' = ''7''"
proof -
  have h: "isAddress ''0x000000000000000000000000000000000000Ce1F''"
    by (simp add: isAddress_def isHexDigit_def hexDigit_def)
  have v: "addressValue ''0x000000000000000000000000000000000000Ce1F'' mod 10 = 7"
    by (simp add: addressValue_def hexDigit_def)
  have c: "digitChar 7 = CHR ''7''"
    by code_simp
  show ?thesis
    using h getSecurityCodePrefix_single_digit [OF h] by (simp add: v c)
qed

section \<open>The two batch probes partition the candidates\<close>

lemma try_issuer:
  "isIssuerRunningAttestationService_try kit tries arg = Inr x \<Longrightarrow> checkIssuer x = c_issuer arg"
  by (auto simp: isIssuerRunningAttestationService_try_def checkIssuer_def
           split: sum.splits option.splits if_splits)

lemma probe_resolves:
  "\<exists>x. makeIsIssuerRunningAttestationService kit tries arg = Inr x \<and> checkIssuer x = c_issuer arg"
proof (cases "isIssuerRunningAttestationService_try kit tries arg")
  case (Inl e)
  then show ?thesis
    by (simp add: makeIsIssuerRunningAttestationService_def checkIssuer_def)
next
  case (Inr x)
  then show ?thesis
    using try_issuer [OF Inr] by (simp add: makeIsIssuerRunningAttestationService_def)
qed

lemma awaitAll_resolved:
  "\<forall>x \<in> set xs. \<exists>y. f x = Inr y \<Longrightarrow> awaitAll (map f xs) = Inr (map (projr \<circ> f) xs)"
proof (induction xs)
  case Nil
  then show ?case by simp
next
  case (Cons x xs)
  then obtain y where y: "f x = Inr y" by auto
  from Cons have "awaitAll (map f xs) = Inr (map (projr \<circ> f) xs)" by simp
  with y show ?case by simp
qed

lemma probes_resolve:
  "concurrentMap n cs (makeIsIssuerRunningAttestationService kit tries)
     = Inr (map (projr \<circ> makeIsIssuerRunningAttestationService kit tries) cs)"
  unfolding concurrentMap_def
  by (rule awaitAll_resolved) (use probe_resolves in blast)

lemma probes_issuers:
  "map checkIssuer (map (projr \<circ> makeIsIssuerRunningAttestationService kit tries) cs)
     = map c_issuer cs"
proof -
  have "checkIssuer (projr (makeIsIssuerRunningAttestationService kit tries c)) = c_issuer c" for c
    using probe_resolves [of kit tries c] by auto
  then show ?thesis by simp
qed

lemma split_results_mset:
  "mset (map issuer (map the (filter notEmpty
           (map (\<lambda>x. case x of IsValidTrue a \<Rightarrow> Some a | IsValidFalse _ \<Rightarrow> None) rs))))
   + mset (map the (filter notEmpty
           (map (\<lambda>x. case x of IsValidTrue _ \<Rightarrow> None | IsValidFalse i \<Rightarrow> Some i) rs)))
   = mset (map checkIssuer rs)"
proof (induction rs)
  case Nil
  then show ?case by simp
next
  case (Cons r rs)
  then show ?case
    by (cases r) (simp_all add: notEmpty_def checkIssuer_def)
qed

lemma mset_split_disjoint:
  assumes "mset as + mset bs = mset cs" and "distinct cs"
  shows "set as \<inter> set bs = {}"
proof (rule ccontr)
  assume "set as \<inter> set bs \<noteq> {}"
  then obtain x where "x \<in> set as" "x \<in> set bs" by auto
  then have "count (mset as) x > 0" "count (mset bs) x > 0"
    by (simp_all only: count_greater_zero_iff set_mset_mset)
  then have "count (mset as) x + count (mset bs) x \<ge> 2" by arith
  then have "count (mset as + mset bs) x \<ge> 2" by (simp only: count_union)
  moreover have "count (mset cs) x \<le> 1"
    using assms(2) by (simp add: distinct_count_atmost_1)
  ultimately show False using assms(1) by simp
qed

text \<open>
  Claim C1. Both batch calls read the same completable attestations and classify every
  candidate with the same probe. So, whenever the on-chain read answers, both calls return,
  and the issuers of the actionable attestations together with the non-compliant issuers
  are exactly the candidate issuers: their union is the candidate set, every candidate
  entry lands in exactly one of the two results (the multiset equation), and for a
  candidate set, where no issuer occurs twice, the two results are disjoint.
\<close>

theorem actionable_noncompliant_partition:
  assumes "getCompletableAttestations (contract kit) identifier account = Inr result"
  shows "\<exists>acts bad.
           getActionableAttestations kit identifier account tries = Inr acts
         \<and> getNonCompliantIssuers kit identifier account tries = Inr bad
         \<and> set (map issuer acts) \<union> set bad
             = set (map c_issuer (parseGetCompletableAttestations result))
         \<and> mset (map issuer acts) + mset bad
             = mset (map c_issuer (parseGetCompletableAttestations result))
         \<and> (distinct (map c_issuer (parseGetCompletableAttestations result))
              \<longrightarrow> set (map issuer acts) \<inter> set bad = {})"
proof -
  define cs where "cs = parseGetCompletableAttestations result"
  define rs where "rs = map (projr \<circ> makeIsIssuerRunningAttestationService kit tries) cs"
  define acts where "acts = map the (filter notEmpty
      (map (\<lambda>x. case x of IsValidTrue a \<Rightarrow> Some a | IsValidFalse _ \<Rightarrow> None) rs))"
  define bad where "bad = map the (filter notEmpty
      (map (\<lambda>x. case x of IsValidTrue _ \<Rightarrow> None | IsValidFalse i \<Rightarrow> Some i) rs))"
  have a: "getActionableAttestations kit identifier account tries = Inr acts"
    by (simp add: getActionableAttestations_def assms probes_resolve acts_def rs_def cs_def)
  have b: "getNonCompliantIssuers kit identifier account tries = Inr bad"
    by (simp add: getNonCompliantIssuers_def assms probes_resolve bad_def rs_def cs_def)
  have m: "mset (map issuer acts) + mset bad = mset (map c_issuer cs)"
    unfolding acts_def bad_def split_results_mset
    by (simp only: rs_def probes_issuers)
  have u: "set (map issuer acts) \<union> set bad = set (map c_issuer cs)"
  proof -
    have "set_mset (mset (map issuer acts) + mset bad) = set_mset (mset (map c_issuer cs))"
      by (simp only: m)
    then show ?thesis by simp
  qed
  have d: "distinct (map c_issuer cs) \<longrightarrow> set (map issuer acts) \<inter> set bad = {}"
    using mset_split_disjoint [OF m] by blast
  show ?thesis
    using a b m u d unfolding cs_def by blast
qed


lemma demo_parse:
  "parseGetCompletableAttestations demoResponse =
     [\<lparr>c_blockNumber = 10, c_issuer = ''0xA'', c_metadataURL = ''m/a''\<rparr>,
      \<lparr>c_blockNumber = 11, c_issuer = ''0xB'', c_metadataURL = ''m/b''\<rparr>,
      \<lparr>c_blockNumber = 12, c_issuer = ''0xC'', c_metadataURL = ''m/c''\<rparr>]"
  by (simp add: parseGetCompletableAttestations_def demoResponse_def zip3_def)

theorem actionable_noncompliant_partition_witness:
  "getCompletableAttestations (contract demoKit) ''id'' ''0xacct'' = Inr demoResponse
   \<and> distinct (map c_issuer (parseGetCompletableAttestations demoResponse))
   \<and> (\<exists>acts bad.
          getActionableAttestations demoKit ''id'' ''0xacct'' 3 = Inr acts
        \<and> getNonCompliantIssuers demoKit ''id'' ''0xacct'' 3 = Inr bad
        \<and> set (map issuer acts) \<union> set bad = {''0xA'', ''0xB'', ''0xC''}
        \<and> set (map issuer acts) \<inter> set bad = {})"
proof -
  have h: "getCompletableAttestations (contract demoKit) ''id'' ''0xacct'' = Inr demoResponse"
    by (simp add: demoKit_def)
  have d: "distinct (map c_issuer (parseGetCompletableAttestations demoResponse))"
    by (simp add: demo_parse)
  have s: "set (map c_issuer (parseGetCompletableAttestations demoResponse))
             = {''0xA'', ''0xB'', ''0xC''}"
    by (simp add: demo_parse)
  from actionable_noncompliant_partition [OF h, of 3] d s h show ?thesis
    by (simp only: simp_thms) blast
qed

section \<open>Probe failures stay inside the probe\<close>

lemma catch_downgrades:
  "isIssuerRunningAttestationService_try kit tries arg = Inl e \<Longrightarrow>
   makeIsIssuerRunningAttestationService kit tries arg = Inr (IsValidFalse (c_issuer arg))"
  by (simp add: makeIsIssuerRunningAttestationService_def)

lemma batch_calls_return:
  assumes "getCompletableAttestations (contract kit) identifier account = Inr result"
  shows "(\<exists>acts. getActionableAttestations kit identifier account tries = Inr acts)
       \<and> (\<exists>bad. getNonCompliantIssuers kit identifier account tries = Inr bad)"
  by (simp add: getActionableAttestations_def getNonCompliantIssuers_def assms probes_resolve)

text \<open>
  Claim C8. The probe of one issuer never rejects: every exception of its body (a failed
  metadata fetch, a missing attestation-service-URL claim, an unreachable status endpoint,
  a response that is not 2xx, a body that is not JSON) is caught and becomes the
  classification "invalid" for that issuer. Hence, once the on-chain read has answered,
  neither batch call fails.
\<close>

theorem probe_failures_never_surface:
  "(\<exists>x. makeIsIssuerRunningAttestationService kit tries arg = Inr x)
   \<and> (\<forall>e. isIssuerRunningAttestationService_try kit tries arg = Inl e \<longrightarrow>
          makeIsIssuerRunningAttestationService kit tries arg = Inr (IsValidFalse (c_issuer arg)))
   \<and> ((\<exists>e. fetchFromURL (network kit) (c_metadataURL arg) tries = Inl e) \<longrightarrow>
          makeIsIssuerRunningAttestationService kit tries arg = Inr (IsValidFalse (c_issuer arg)))
   \<and> (\<forall>metadata. fetchFromURL (network kit) (c_metadataURL arg) tries = Inr metadata
          \<and> attestationServiceURLClaim metadata = None \<longrightarrow>
          makeIsIssuerRunningAttestationService kit tries arg = Inr (IsValidFalse (c_issuer arg)))
   \<and> (\<forall>metadata url. fetchFromURL (network kit) (c_metadataURL arg) tries = Inr metadata
          \<and> attestationServiceURLClaim metadata = Some url
          \<and> (\<exists>e. fetch (network kit) (statusURL url) = Inl e) \<longrightarrow>
          makeIsIssuerRunningAttestationService kit tries arg = Inr (IsValidFalse (c_issuer arg)))
   \<and> (\<forall>metadata url resp. fetchFromURL (network kit) (c_metadataURL arg) tries = Inr metadata
          \<and> attestationServiceURLClaim metadata = Some url
          \<and> fetch (network kit) (statusURL url) = Inr resp
          \<and> (\<not> ok resp \<or> (\<exists>e. json resp = Inl e) \<or> json resp = Inr None) \<longrightarrow>
          makeIsIssuerRunningAttestationService kit tries arg = Inr (IsValidFalse (c_issuer arg)))
   \<and> (\<forall>result. getCompletableAttestations (contract kit) identifier account = Inr result \<longrightarrow>
          (\<exists>acts. getActionableAttestations kit identifier account tries = Inr acts)
        \<and> (\<exists>bad. getNonCompliantIssuers kit identifier account tries = Inr bad))"
proof (intro conjI allI impI)
  show "\<exists>x. makeIsIssuerRunningAttestationService kit tries arg = Inr x"
    using probe_resolves [of kit tries arg] by blast
next
  fix e assume "isIssuerRunningAttestationService_try kit tries arg = Inl e"
  then show "makeIsIssuerRunningAttestationService kit tries arg = Inr (IsValidFalse (c_issuer arg))"
    by (rule catch_downgrades)
next
  assume "\<exists>e. fetchFromURL (network kit) (c_metadataURL arg) tries = Inl e"
  then obtain e where "fetchFromURL (network kit) (c_metadataURL arg) tries = Inl e" ..
  then have "isIssuerRunningAttestationService_try kit tries arg = Inl e"
    by (simp add: isIssuerRunningAttestationService_try_def)
  then show "makeIsIssuerRunningAttestationService kit tries arg = Inr (IsValidFalse (c_issuer arg))"
    by (rule catch_downgrades)
next
  fix metadata
  assume "fetchFromURL (network kit) (c_metadataURL arg) tries = Inr metadata
          \<and> attestationServiceURLClaim metadata = None"
  then have "\<exists>e. isIssuerRunningAttestationService_try kit tries arg = Inl e"
    by (simp add: isIssuerRunningAttestationService_try_def)
  then show "makeIsIssuerRunningAttestationService kit tries arg = Inr (IsValidFalse (c_issuer arg))"
    using catch_downgrades by blast
next
  fix metadata url
  assume "fetchFromURL (network kit) (c_metadataURL arg) tries = Inr metadata
          \<and> attestationServiceURLClaim metadata = Some url
          \<and> (\<exists>e. fetch (network kit) (statusURL url) = Inl e)"
  then have "\<exists>e. isIssuerRunningAttestationService_try kit tries arg = Inl e"
    by (auto simp: isIssuerRunningAttestationService_try_def)
  then show "makeIsIssuerRunningAttestationService kit tries arg = Inr (IsValidFalse (c_issuer arg))"
    using catch_downgrades by blast
next
  fix metadata url resp
  assume "fetchFromURL (network kit) (c_metadataURL arg) tries = Inr metadata
          \<and> attestationServiceURLClaim metadata = Some url
          \<and> fetch (network kit) (statusURL url) = Inr resp
          \<and> (\<not> ok resp \<or> (\<exists>e. json resp = Inl e) \<or> json resp = Inr None)"
  then have "\<exists>e. isIssuerRunningAttestationService_try kit tries arg = Inl e"
    by (auto simp: isIssuerRunningAttestationService_try_def)
  then show "makeIsIssuerRunningAttestationService kit tries arg = Inr (IsValidFalse (c_issuer arg))"
    using catch_downgrades by blast
next
  fix result
  assume h: "getCompletableAttestations (contract kit) identifier account = Inr result"
  show "\<exists>acts. getActionableAttestations kit identifier account tries = Inr acts"
    using batch_calls_return [OF h] by blast
  show "\<exists>bad. getNonCompliantIssuers kit identifier account tries = Inr bad"
    using batch_calls_return [OF h] by blast
qed

theorem probe_failures_never_surface_witness:
  "fetchFromURL (network demoKit) ''m/c'' 3 = Inl (Exn (Some ''system'') ''timeout'')
   \<and> makeIsIssuerRunningAttestationService demoKit 3
        \<lparr>c_blockNumber = 12, c_issuer = ''0xC'', c_metadataURL = ''m/c''\<rparr>
       = Inr (IsValidFalse ''0xC'')
   \<and> getCompletableAttestations (contract demoKit) ''id'' ''0xacct'' = Inr demoResponse
   \<and> (\<exists>acts. getActionableAttestations demoKit ''id'' ''0xacct'' 3 = Inr acts)
   \<and> (\<exists>bad. getNonCompliantIssuers demoKit ''id'' ''0xacct'' 3 = Inr bad)"
proof -
  have f: "fetchFromURL (network demoKit) ''m/c'' 3 = Inl (Exn (Some ''system'') ''timeout'')"
    by (simp add: demoKit_def demoNetwork_def)
  have h: "getCompletableAttestations (contract demoKit) ''id'' ''0xacct'' = Inr demoResponse"
    by (simp add: demoKit_def)
  from probe_failures_never_surface
         [of demoKit 3 "\<lparr>c_blockNumber = 12, c_issuer = ''0xC'', c_metadataURL = ''m/c''\<rparr>"
             "''id''" "''0xacct''"]
       f h
  show ?thesis by simp
qed

text \<open>
  Claim C9. An issuer whose status endpoint answers with HTTP 2xx and a JSON body whose
  \<open>status\<close> field is not the string \<open>ok\<close> is classified invalid without any error: its
  probe resolves to "invalid", both batch calls return, the issuer is among the
  non-compliant issuers, no actionable attestation points at its service, and in a
  candidate set, where no issuer occurs twice, it is not the issuer of any actionable
  attestation.
\<close>

theorem status_not_ok_is_invalid:
  assumes chain: "getCompletableAttestations (contract kit) identifier account = Inr result"
    and cand: "arg \<in> set (parseGetCompletableAttestations result)"
    and meta: "fetchFromURL (network kit) (c_metadataURL arg) tries = Inr metadata"
    and claim: "attestationServiceURLClaim metadata = Some url"
    and resp: "fetch (network kit) (statusURL url) = Inr resp"
    and is_ok: "ok resp"
    and body: "json resp = Inr (Some body)"
    and st: "b_status body \<noteq> Some ''ok''"
  shows "makeIsIssuerRunningAttestationService kit tries arg = Inr (IsValidFalse (c_issuer arg))
       \<and> (\<exists>acts bad.
              getActionableAttestations kit identifier account tries = Inr acts
            \<and> getNonCompliantIssuers kit identifier account tries = Inr bad
            \<and> c_issuer arg \<in> set bad
            \<and> (\<forall>a \<in> set acts. attestationServiceURL a \<noteq> url)
            \<and> (distinct (map c_issuer (parseGetCompletableAttestations result))
                 \<longrightarrow> c_issuer arg \<notin> set (map issuer acts)))"
proof -
  define cs where "cs = parseGetCompletableAttestations result"
  define probe where "probe = projr \<circ> makeIsIssuerRunningAttestationService kit tries"
  define acts where "acts = map the (filter notEmpty
      (map (\<lambda>x. case x of IsValidTrue a \<Rightarrow> Some a | IsValidFalse _ \<Rightarrow> None) (map probe cs)))"
  define bad where "bad = map the (filter notEmpty
      (map (\<lambda>x. case x of IsValidTrue _ \<Rightarrow> None | IsValidFalse i \<Rightarrow> Some i) (map probe cs)))"
  have p: "makeIsIssuerRunningAttestationService kit tries arg = Inr (IsValidFalse (c_issuer arg))"
    using meta claim resp is_ok body st
    by (simp add: makeIsIssuerRunningAttestationService_def
                  isIssuerRunningAttestationService_try_def)
  have a: "getActionableAttestations kit identifier account tries = Inr acts"
    by (simp add: getActionableAttestations_def chain probes_resolve acts_def probe_def cs_def)
  have b: "getNonCompliantIssuers kit identifier account tries = Inr bad"
    by (simp add: getNonCompliantIssuers_def chain probes_resolve bad_def probe_def cs_def)
  have "probe arg = IsValidFalse (c_issuer arg)"
    by (simp add: probe_def p)
  with cand have inbad: "c_issuer arg \<in> set bad"
    unfolding bad_def cs_def [symmetric]
    by (force simp: notEmpty_def image_iff)
  have nourl: "\<forall>a \<in> set acts. attestationServiceURL a \<noteq> url"
  proof
    fix a assume "a \<in> set acts"
    then obtain c where c: "c \<in> set cs" and pc: "probe c = IsValidTrue a"
      unfolding acts_def
      by (auto simp: notEmpty_def split: AttestationServiceRunningCheckResult.splits)
    from pc have "makeIsIssuerRunningAttestationService kit tries c = Inr (IsValidTrue a)"
      using probe_resolves [of kit tries c] by (auto simp: probe_def)
    then have t: "isIssuerRunningAttestationService_try kit tries c = Inr (IsValidTrue a)"
      by (auto simp: makeIsIssuerRunningAttestationService_def split: sum.splits)
    show "attestationServiceURL a \<noteq> url"
    proof
      assume eq: "attestationServiceURL a = url"
      from t eq resp is_ok body st show False
        by (auto simp: isIssuerRunningAttestationService_try_def
                 split: sum.splits option.splits if_splits)
    qed
  qed
  have m: "mset (map issuer acts) + mset bad = mset (map c_issuer cs)"
    unfolding acts_def bad_def split_results_mset
    by (simp only: probe_def probes_issuers)
  have d: "distinct (map c_issuer cs) \<longrightarrow> c_issuer arg \<notin> set (map issuer acts)"
    using mset_split_disjoint [OF m] inbad by blast
  show ?thesis
    using p a b inbad nourl d unfolding cs_def by blast
qed

theorem status_not_ok_is_invalid_witness:
  "getCompletableAttestations (contract demoKit) ''id'' ''0xacct'' = Inr demoResponse
   \<and> \<lparr>c_blockNumber = 11, c_issuer = ''0xB'', c_metadataURL = ''m/b''\<rparr>
        \<in> set (parseGetCompletableAttestations demoResponse)
   \<and> fetchFromURL (network demoKit) ''m/b'' 3
        = Inr \<lparr>attestationServiceURLClaim = Some ''https://b/'', nameClaim = None\<rparr>
   \<and> fetch (network demoKit) (statusURL ''https://b/'')
        = Inr \<lparr>ok = True, status = 200, json = Inr (Some (demoBody ''down''))\<rparr>
   \<and> b_status (demoBody ''down'') \<noteq> Some ''ok''
   \<and> distinct (map c_issuer (parseGetCompletableAttestations demoResponse))
   \<and> makeIsIssuerRunningAttestationService demoKit 3
        \<lparr>c_blockNumber = 11, c_issuer = ''0xB'', c_metadataURL = ''m/b''\<rparr>
       = Inr (IsValidFalse ''0xB'')
   \<and> (\<exists>acts bad.
          getActionableAttestations demoKit ''id'' ''0xacct'' 3 = Inr acts
        \<and> getNonCompliantIssuers demoKit ''id'' ''0xacct'' 3 = Inr bad
        \<and> ''0xB'' \<in> set bad
        \<and> ''0xB'' \<notin> set (map issuer acts))"
proof -
  let ?arg = "\<lparr>c_blockNumber = 11, c_issuer = ''0xB'', c_metadataURL = ''m/b''\<rparr>"
  let ?md = "\<lparr>attestationServiceURLClaim = Some ''https://b/'', nameClaim = None\<rparr>"
  let ?resp = "\<lparr>ok = True, status = 200, json = Inr (Some (demoBody ''down''))\<rparr>"
  have chain: "getCompletableAttestations (contract demoKit) ''id'' ''0xacct'' = Inr demoResponse"
    by (simp add: demoKit_def)
  have cand: "?arg \<in> set (parseGetCompletableAttestations demoResponse)"
    by (simp add: demo_parse)
  have meta: "fetchFromURL (network demoKit) (c_metadataURL ?arg) 3 = Inr ?md"
    by (simp add: demoKit_def demoNetwork_def)
  have claim: "attestationServiceURLClaim ?md = Some ''https://b/''" by simp
  have resp: "fetch (network demoKit) (statusURL ''https://b/'') = Inr ?resp"
    by (simp add: demoKit_def demoNetwork_def statusURL_def)
  have is_ok: "ok ?resp" by simp
  have body: "json ?resp = Inr (Some (demoBody ''down''))" by simp
  have st: "b_status (demoBody ''down'') \<noteq> Some ''ok''"
    by (simp add: demoBody_def)
  have d: "distinct (map c_issuer (parseGetCompletableAttestations demoResponse))"
    by (simp add: demo_parse)
  from status_not_ok_is_invalid [OF chain cand meta claim resp is_ok body st]
       chain cand meta resp st d
  show ?thesis by simp blast
qed

section \<open>Completing and waiting\<close>

text \<open>
  Claim C2. \<open>complete\<close> succeeds if and only if the code is a valid signature, over the
  canonical message of the identifier and the account, by the address that the Accounts
  contract gives as the issuer's attestation signer. On success the transaction carries the
  \<open>(v, r, s)\<close> components recovered from the code; otherwise the call fails with the
  verification error.
\<close>

theorem complete_iff_valid_signature:
  "((\<exists>tx. complete kit identifier account i code = Inr tx) \<longleftrightarrow>
      isValidSignatureBy (signing kit)
        (getAttestationMessageToSignFromIdentifier (signing kit) identifier account) code
        (getAttestationSigner (accounts kit) i))
   \<and> (\<forall>sg. decodeSignature (signing kit) code = Some sg
          \<and> isValidSignatureBy (signing kit)
               (getAttestationMessageToSignFromIdentifier (signing kit) identifier account) code
               (getAttestationSigner (accounts kit) i) \<longrightarrow>
          complete kit identifier account i code
            = Inr (CompleteTx identifier (sig_v sg) (sig_r sg) (sig_s sg)))
   \<and> (\<not> isValidSignatureBy (signing kit)
            (getAttestationMessageToSignFromIdentifier (signing kit) identifier account) code
            (getAttestationSigner (accounts kit) i) \<longrightarrow>
          complete kit identifier account i code
            = Inl (verificationError (getAttestationSigner (accounts kit) i)))"
  by (auto simp: complete_def parseSignature_def isValidSignatureBy_def Let_def
           split: option.splits)

theorem complete_iff_valid_signature_witness:
  "isValidSignatureBy (signing demoKit)
     (getAttestationMessageToSignFromIdentifier (signing demoKit) ''id'' ''0xacct'') ''Abc''
     (getAttestationSigner (accounts demoKit) ''0xA'')
   \<and> decodeSignature (signing demoKit) ''Abc'' = Some \<lparr>sig_v = 27, sig_r = ''A'', sig_s = ''bc''\<rparr>
   \<and> complete demoKit ''id'' ''0xacct'' ''0xA'' ''Abc'' = Inr (CompleteTx ''id'' 27 ''A'' ''bc'')
   \<and> \<not> isValidSignatureBy (signing demoKit)
         (getAttestationMessageToSignFromIdentifier (signing demoKit) ''id'' ''0xacct'') ''Bbc''
         (getAttestationSigner (accounts demoKit) ''0xA'')
   \<and> complete demoKit ''id'' ''0xacct'' ''0xA'' ''Bbc'' = Inl (verificationError ''0xA'')"
proof -
  have d: "decodeSignature (signing demoKit) ''Abc''
             = Some \<lparr>sig_v = 27, sig_r = ''A'', sig_s = ''bc''\<rparr>"
    by (simp add: demoKit_def)
  have v: "isValidSignatureBy (signing demoKit)
             (getAttestationMessageToSignFromIdentifier (signing demoKit) ''id'' ''0xacct'') ''Abc''
             (getAttestationSigner (accounts demoKit) ''0xA'')"
    by (simp add: isValidSignatureBy_def demoKit_def)
  have n: "\<not> isValidSignatureBy (signing demoKit)
             (getAttestationMessageToSignFromIdentifier (signing demoKit) ''id'' ''0xacct'') ''Bbc''
             (getAttestationSigner (accounts demoKit) ''0xA'')"
    by (simp add: isValidSignatureBy_def demoKit_def)
  have s: "getAttestationSigner (accounts demoKit) ''0xA'' = ''0xA''"
    by (simp add: demoKit_def)
  from complete_iff_valid_signature [of demoKit "''id''" "''0xacct''" "''0xA''" "''Abc''"]
       complete_iff_valid_signature [of demoKit "''id''" "''0xacct''" "''0xA''" "''Bbc''"]
       d v n s
  show ?thesis by simp
qed

text \<open>
  Claim C3. When the unselected request read from the contract has the block number 0,
  \<open>waitForSelectingIssuers\<close> fails at once with the error "No unselectedRequest to wait
  for": it has read the clock once, and it has neither polled the block height nor slept.
\<close>

theorem wait_without_request_fails_at_once:
  assumes "u_blockNumber (getUnselectedRequest (contract kit) identifier account) = 0"
  shows "\<exists>t'. waitForSelectingIssuers kit identifier account timeoutSeconds pollDurationSeconds t
                = Some (Inl (Exn None ''No unselectedRequest to wait for''), t')
              \<and> blockCalls t' = blockCalls t
              \<and> sleeps t' = sleeps t
              \<and> nowCalls t' = nowCalls t + 1"
  using assms by (simp add: waitForSelectingIssuers_def Let_def)

theorem wait_without_request_fails_at_once_witness:
  "u_blockNumber (getUnselectedRequest (contract demoKit) ''other'' ''0xacct'') = 0
   \<and> (\<exists>t'. waitForSelectingIssuers demoKit ''other'' ''0xacct'' 120 1
              \<lparr>nowCalls = 0, blockCalls = 0, sleeps = []\<rparr>
             = Some (Inl (Exn None ''No unselectedRequest to wait for''), t')
           \<and> blockCalls t' = 0 \<and> sleeps t' = [])"
proof -
  have h: "u_blockNumber (getUnselectedRequest (contract demoKit) ''other'' ''0xacct'') = 0"
    by (simp add: demoKit_def)
  from wait_without_request_fails_at_once
         [OF h, of 120 1 "\<lparr>nowCalls = 0, blockCalls = 0, sleeps = []\<rparr>"] h
  show ?thesis by simp blast
qed

lemma loop_returns_at_first_poll:
  assumes "dateNow conn (nowCalls t) - startTime < timeoutSeconds * 1000"
    and "getBlockNumber conn (blockCalls t) \<ge> required"
  shows "waitForSelectingIssuers_loop conn startTime timeoutSeconds pollDurationSeconds required t
         = Some (Inr (), t\<lparr>nowCalls := nowCalls t + 1, blockCalls := blockCalls t + 1\<rparr>)"
  using assms by (subst waitForSelectingIssuers_loop.simps) simp

lemma loop_times_out:
  assumes "\<forall>k<n. dateNow conn (nowCalls t + k) - startTime < timeoutSeconds * 1000
                \<and> getBlockNumber conn (blockCalls t + k) < required"
    and "\<not> dateNow conn (nowCalls t + n) - startTime < timeoutSeconds * 1000"
  shows "waitForSelectingIssuers_loop conn startTime timeoutSeconds pollDurationSeconds required t
         = Some (Inl (Exn None ''Timeout while waiting for selecting issuers''),
                 t\<lparr>nowCalls := nowCalls t + n + 1, blockCalls := blockCalls t + n,
                   sleeps := sleeps t @ replicate n (pollDurationSeconds * 1000)\<rparr>)"
  using assms
proof (induction n arbitrary: t)
  case 0
  then show ?case
    by (subst waitForSelectingIssuers_loop.simps) simp
next
  case (Suc n)
  let ?t = "t\<lparr>nowCalls := nowCalls t + 1, blockCalls := blockCalls t + 1,
               sleeps := sleeps t @ [pollDurationSeconds * 1000]\<rparr>"
  from Suc.prems(1)
  have "dateNow conn (nowCalls t + 0) - startTime < timeoutSeconds * 1000
        \<and> getBlockNumber conn (blockCalls t + 0) < required"
    by blast
  then have now0: "dateNow conn (nowCalls t) - startTime < timeoutSeconds * 1000"
    and blk0: "getBlockNumber conn (blockCalls t) < required"
    by simp_all
  have step: "\<forall>k<n. dateNow conn (nowCalls ?t + k) - startTime < timeoutSeconds * 1000
                   \<and> getBlockNumber conn (blockCalls ?t + k) < required"
  proof (intro allI impI)
    fix k assume "k < n"
    then have "Suc k < Suc n" by simp
    with Suc.prems(1)
    have "dateNow conn (nowCalls t + Suc k) - startTime < timeoutSeconds * 1000
          \<and> getBlockNumber conn (blockCalls t + Suc k) < required"
      by blast
    then show "dateNow conn (nowCalls ?t + k) - startTime < timeoutSeconds * 1000
                   \<and> getBlockNumber conn (blockCalls ?t + k) < required"
      by simp
  qed
  have last: "\<not> dateNow conn (nowCalls ?t + n) - startTime < timeoutSeconds * 1000"
    using Suc.prems(2) by simp
  have "waitForSelectingIssuers_loop conn startTime timeoutSeconds pollDurationSeconds required t
        = waitForSelectingIssuers_loop conn startTime timeoutSeconds pollDurationSeconds required ?t"
    using now0 blk0 by (subst waitForSelectingIssuers_loop.simps) simp
  also have "\<dots> = Some (Inl (Exn None ''Timeout while waiting for selecting issuers''),
                 ?t\<lparr>nowCalls := nowCalls ?t + n + 1, blockCalls := blockCalls ?t + n,
                   sleeps := sleeps ?t @ replicate n (pollDurationSeconds * 1000)\<rparr>)"
    by (rule Suc.IH [OF step last])
  finally show ?case by (simp add: replicate_app_Cons_same)
qed

text \<open>
  Claim C4. Let a request be pending (block number above 0) and let the required block be
  the request's block number plus \<open>selectIssuersWaitBlocks\<close>. If the loop's first check of
  the clock is within the timeout and the first poll of the block height reaches the
  required block, the call returns without any sleep. If the block height is below the
  required block at each of the first \<open>n\<close> polls, each made within the timeout, and the
  next reading of the clock is \<open>timeoutSeconds\<close> or more after the start, the call fails
  with the timeout error, after \<open>n\<close> polls and \<open>n\<close> sleeps of \<open>pollDurationSeconds\<close>.
\<close>

theorem wait_returns_or_times_out:
  fixes kit :: Kit and t :: Trace
  defines "conn \<equiv> connection kit"
  defines "startTime \<equiv> dateNow (connection kit) (nowCalls t)"
  assumes pending: "0 < u_blockNumber (getUnselectedRequest (contract kit) identifier account)"
    and required: "required = u_blockNumber (getUnselectedRequest (contract kit) identifier account)
                     + selectIssuersWaitBlocks (contract kit)"
  shows "(dateNow conn (nowCalls t + 1) - startTime < timeoutSeconds * 1000
          \<and> getBlockNumber conn (blockCalls t) \<ge> required \<longrightarrow>
            (\<exists>t'. waitForSelectingIssuers kit identifier account timeoutSeconds
                     pollDurationSeconds t = Some (Inr (), t')
                 \<and> sleeps t' = sleeps t \<and> blockCalls t' = blockCalls t + 1))
       \<and> (\<forall>n. (\<forall>k<n. dateNow conn (nowCalls t + 1 + k) - startTime < timeoutSeconds * 1000
                       \<and> getBlockNumber conn (blockCalls t + k) < required)
              \<and> dateNow conn (nowCalls t + 1 + n) - startTime \<ge> timeoutSeconds * 1000 \<longrightarrow>
            (\<exists>t'. waitForSelectingIssuers kit identifier account timeoutSeconds
                     pollDurationSeconds t
                   = Some (Inl (Exn None ''Timeout while waiting for selecting issuers''), t')
                 \<and> blockCalls t' = blockCalls t + n
                 \<and> sleeps t' = sleeps t @ replicate n (pollDurationSeconds * 1000)))"
proof (intro conjI allI impI)
  let ?t1 = "t\<lparr>nowCalls := nowCalls t + 1\<rparr>"
  have w: "waitForSelectingIssuers kit identifier account timeoutSeconds pollDurationSeconds t
           = waitForSelectingIssuers_loop conn startTime timeoutSeconds pollDurationSeconds
               required ?t1"
    using pending by (simp add: waitForSelectingIssuers_def Let_def conn_def startTime_def required)
  {
    assume a: "dateNow conn (nowCalls t + 1) - startTime < timeoutSeconds * 1000
               \<and> getBlockNumber conn (blockCalls t) \<ge> required"
    have "waitForSelectingIssuers_loop conn startTime timeoutSeconds pollDurationSeconds
            required ?t1
          = Some (Inr (), ?t1\<lparr>nowCalls := nowCalls ?t1 + 1, blockCalls := blockCalls ?t1 + 1\<rparr>)"
      by (rule loop_returns_at_first_poll) (use a in simp_all)
    with w show "\<exists>t'. waitForSelectingIssuers kit identifier account timeoutSeconds
                     pollDurationSeconds t = Some (Inr (), t')
                 \<and> sleeps t' = sleeps t \<and> blockCalls t' = blockCalls t + 1"
      by simp
  }
  {
    fix n
    assume a: "(\<forall>k<n. dateNow conn (nowCalls t + 1 + k) - startTime < timeoutSeconds * 1000
                       \<and> getBlockNumber conn (blockCalls t + k) < required)
              \<and> dateNow conn (nowCalls t + 1 + n) - startTime \<ge> timeoutSeconds * 1000"
    have "waitForSelectingIssuers_loop conn startTime timeoutSeconds pollDurationSeconds
            required ?t1
          = Some (Inl (Exn None ''Timeout while waiting for selecting issuers''),
                 ?t1\<lparr>nowCalls := nowCalls ?t1 + n + 1, blockCalls := blockCalls ?t1 + n,
                   sleeps := sleeps ?t1 @ replicate n (pollDurationSeconds * 1000)\<rparr>)"
      by (rule loop_times_out) (use a in simp_all)
    with w show "\<exists>t'. waitForSelectingIssuers kit identifier account timeoutSeconds
                     pollDurationSeconds t
                   = Some (Inl (Exn None ''Timeout while waiting for selecting issuers''), t')
                 \<and> blockCalls t' = blockCalls t + n
                 \<and> sleeps t' = sleeps t @ replicate n (pollDurationSeconds * 1000)"
      by simp
  }
qed

theorem wait_returns_or_times_out_witness:
  "0 < u_blockNumber (getUnselectedRequest (contract demoKit) ''id'' ''0xacct'')
   \<and> (\<exists>t'. waitForSelectingIssuers demoKit ''id'' ''0xacct'' 120 1
              \<lparr>nowCalls = 0, blockCalls = 1, sleeps = []\<rparr> = Some (Inr (), t')
           \<and> sleeps t' = [] \<and> blockCalls t' = Suc (Suc 0))
   \<and> (\<exists>t'. waitForSelectingIssuers demoKit ''id'' ''0xacct'' 2 1
              \<lparr>nowCalls = 0, blockCalls = 0, sleeps = []\<rparr>
             = Some (Inl (Exn None ''Timeout while waiting for selecting issuers''), t')
           \<and> blockCalls t' = Suc 0 \<and> sleeps t' = [1000])"
proof -
  have p: "0 < u_blockNumber (getUnselectedRequest (contract demoKit) ''id'' ''0xacct'')"
    by (simp add: demoKit_def)
  have r: "(104::int) = u_blockNumber (getUnselectedRequest (contract demoKit) ''id'' ''0xacct'')
                     + selectIssuersWaitBlocks (contract demoKit)"
    by (simp add: demoKit_def)
  have c: "connection demoKit
             = \<lparr>dateNow = (\<lambda>k. 1000 * int k), getBlockNumber = (\<lambda>k. 103 + int k)\<rparr>"
    by (simp add: demoKit_def)
  have a: "\<exists>t'. waitForSelectingIssuers demoKit ''id'' ''0xacct'' 120 1
              \<lparr>nowCalls = 0, blockCalls = 1, sleeps = []\<rparr> = Some (Inr (), t')
           \<and> sleeps t' = [] \<and> blockCalls t' = Suc (Suc 0)"
    using wait_returns_or_times_out
            [OF p r, of "\<lparr>nowCalls = 0, blockCalls = 1, sleeps = []\<rparr>" 120 1, THEN conjunct1]
    by (simp add: c)
  have b: "\<exists>t'. waitForSelectingIssuers demoKit ''id'' ''0xacct'' 2 1
              \<lparr>nowCalls = 0, blockCalls = 0, sleeps = []\<rparr>
             = Some (Inl (Exn None ''Timeout while waiting for selecting issuers''), t')
           \<and> blockCalls t' = Suc 0 \<and> sleeps t' = [1000]"
    using wait_returns_or_times_out
            [OF p r, of "\<lparr>nowCalls = 0, blockCalls = 0, sleeps = []\<rparr>" 2 1,
             THEN conjunct2, THEN spec, of 1]
    by (simp add: c)
  from p a b show ?thesis by blast
qed

section \<open>The order of the status classification\<close>

text \<open>
  Claim C5. The classification of \<open>getAttestationServiceStatus\<close> stops at the first blocking
  condition, in the order of the decision points: (1) a validator without an authorized
  attestation signer yields \<open>NoAttestationSigner\<close>, whatever its metadata URL and its service
  are; (2) with a signer, no metadata URL yields \<open>NoMetadataURL\<close>; (3) a metadata URL over
  \<open>http://\<close> yields \<open>InvalidAttestationServiceURL\<close>; (4) a failed metadata fetch yields
  \<open>MetadataTimeout\<close> for a system error and \<open>InvalidMetadata\<close> otherwise; (5) metadata
  without the service URL claim yields \<open>NoAttestationServiceURL\<close>; (6) a status endpoint that
  is unreachable or answers outside 2xx yields \<open>UnreachableAttestationService\<close>.
\<close>

theorem status_classification_order:
  fixes kit :: Kit and v :: Validator
  defines "acc \<equiv> accounts kit"
  defines "url \<equiv> getMetadataURL (accounts kit) (address v)"
  defines "st \<equiv> state (getAttestationServiceStatus kit v)"
  shows "(\<not> hasAuthorizedAttestationSigner acc (address v) \<longrightarrow> st = NoAttestationSigner)
       \<and> (hasAuthorizedAttestationSigner acc (address v) \<and> url = [] \<longrightarrow> st = NoMetadataURL)
       \<and> (hasAuthorizedAttestationSigner acc (address v) \<and> url \<noteq> []
            \<and> take 7 url = ''http://'' \<longrightarrow> st = InvalidAttestationServiceURL)
       \<and> (\<forall>e. hasAuthorizedAttestationSigner acc (address v) \<and> url \<noteq> []
            \<and> take 7 url \<noteq> ''http://'' \<and> fetchFromURL (network kit) url 3 = Inl e \<longrightarrow>
              st = (if exn_type e = Some ''system'' then MetadataTimeout else InvalidMetadata))
       \<and> (\<forall>metadata. hasAuthorizedAttestationSigner acc (address v) \<and> url \<noteq> []
            \<and> take 7 url \<noteq> ''http://'' \<and> fetchFromURL (network kit) url 3 = Inr metadata
            \<and> attestationServiceURLClaim metadata = None \<longrightarrow> st = NoAttestationServiceURL)
       \<and> (\<forall>metadata serviceURL. hasAuthorizedAttestationSigner acc (address v) \<and> url \<noteq> []
            \<and> take 7 url \<noteq> ''http://'' \<and> fetchFromURL (network kit) url 3 = Inr metadata
            \<and> attestationServiceURLClaim metadata = Some serviceURL
            \<and> ((\<exists>e. fetch (network kit) (appendPath serviceURL ''status'') = Inl e)
                \<or> (\<exists>resp. fetch (network kit) (appendPath serviceURL ''status'') = Inr resp
                      \<and> \<not> ok resp)) \<longrightarrow>
              st = UnreachableAttestationService)"
  unfolding acc_def url_def st_def
  by (auto simp: getAttestationServiceStatus_def Let_def statusStep_def)

lemma demo_accounts:
  "hasAuthorizedAttestationSigner (accounts demoKit) a = (a \<noteq> ''0xD'')"
  "getMetadataURL (accounts demoKit) ''0xA'' = ''m/a''"
  "getMetadataURL (accounts demoKit) ''0xB'' = []"
  "getMetadataURL (accounts demoKit) ''0xC'' = ''m/c''"
  "getMetadataURL (accounts demoKit) ''0xD'' = ''m/a''"
  "getMetadataURL (accounts demoKit) ''0xE'' = ''http://e''"
  "getMetadataURL (accounts demoKit) ''0xF'' = ''m/f''"
  "getMetadataURL (accounts demoKit) ''0xG'' = ''m/g''"
  by (simp_all add: demoKit_def)

lemma demo_network:
  "fetchFromURL (network demoKit) ''m/a'' n
     = Inr \<lparr>attestationServiceURLClaim = Some ''https://a'', nameClaim = Some ''A''\<rparr>"
  "fetchFromURL (network demoKit) ''m/c'' n = Inl (Exn (Some ''system'') ''timeout'')"
  "fetchFromURL (network demoKit) ''m/f'' n
     = Inr \<lparr>attestationServiceURLClaim = Some ''https://f'', nameClaim = None\<rparr>"
  "fetchFromURL (network demoKit) ''m/g'' n
     = Inr \<lparr>attestationServiceURLClaim = Some ''https://g'', nameClaim = None\<rparr>"
  "fetch (network demoKit) ''https://a/status''
     = Inr \<lparr>ok = True, status = 200, json = Inr (Some (demoBody ''ok''))\<rparr>"
  "fetch (network demoKit) ''https://f/status''
     = Inr \<lparr>ok = True, status = 200, json = Inr (Some (staleBody (Some ''0xF'')))\<rparr>"
  "fetch (network demoKit) ''https://g/status''
     = Inr \<lparr>ok = True, status = 200, json = Inr (Some (staleBody (Some ''0xG'')))\<rparr>"
  "fetch (network demoKit) ''https://f/healthz''
     = Inr \<lparr>ok = True, status = 200, json = Inr (Some (demoBody ''ok''))\<rparr>"
  "fetch (network demoKit) ''https://g/healthz'' = Inl (Exn None ''unreachable'')"
  by (simp_all add: demoKit_def demoNetwork_def)

theorem status_classification_order_witness:
  "\<not> hasAuthorizedAttestationSigner (accounts demoKit) (address (demoValidator ''0xD''))
   \<and> getMetadataURL (accounts demoKit) (address (demoValidator ''0xD'')) = ''m/a''
   \<and> state (getAttestationServiceStatus demoKit (demoValidator ''0xD'')) = NoAttestationSigner
   \<and> hasAuthorizedAttestationSigner (accounts demoKit) (address (demoValidator ''0xB''))
   \<and> state (getAttestationServiceStatus demoKit (demoValidator ''0xB'')) = NoMetadataURL
   \<and> state (getAttestationServiceStatus demoKit (demoValidator ''0xE''))
       = InvalidAttestationServiceURL
   \<and> state (getAttestationServiceStatus demoKit (demoValidator ''0xC'')) = MetadataTimeout"
proof -
  have a: "address (demoValidator x) = x" for x
    by (simp add: demoValidator_def)
  have d: "state (getAttestationServiceStatus demoKit (demoValidator ''0xD'')) = NoAttestationSigner"
    using status_classification_order [of demoKit "demoValidator ''0xD''", THEN conjunct1]
    by (simp add: a demo_accounts)
  have b: "state (getAttestationServiceStatus demoKit (demoValidator ''0xB'')) = NoMetadataURL"
    using status_classification_order
            [of demoKit "demoValidator ''0xB''", THEN conjunct2, THEN conjunct1]
    by (simp add: a demo_accounts)
  have e: "state (getAttestationServiceStatus demoKit (demoValidator ''0xE''))
             = InvalidAttestationServiceURL"
    using status_classification_order
            [of demoKit "demoValidator ''0xE''", THEN conjunct2, THEN conjunct2, THEN conjunct1]
    by (simp add: a demo_accounts)
  have c: "state (getAttestationServiceStatus demoKit (demoValidator ''0xC'')) = MetadataTimeout"
    using status_classification_order
            [of demoKit "demoValidator ''0xC''", THEN conjunct2, THEN conjunct2, THEN conjunct2,
             THEN conjunct1, THEN spec, of "Exn (Some ''system'') ''timeout''"]
    by (simp add: a demo_accounts demo_network)
  from d b e c show ?thesis
    by (simp add: a demo_accounts)
qed





section \<open>Decoding the batch lookup\<close>

lemma matchLoop_cursor:
  "fst (matchLoop A C T k r m) = r + k"
  by (induction k arbitrary: r m) simp_all

lemma take_drop_step:
  "r < length A \<Longrightarrow> take (Suc k) (drop r A) = A ! r # take k (drop (Suc r) A)"
  by (simp add: Cons_nth_drop_Suc [symmetric])

lemma matchLoop_dom:
  "r + k \<le> length A \<Longrightarrow>
   dom (snd (matchLoop A C T k r m)) = dom m \<union> set (take k (drop r A))"
proof (induction k arbitrary: r m)
  case 0
  then show ?case by simp
next
  case (Suc k)
  then have r: "r < length A" and rest: "Suc r + k \<le> length A" by simp_all
  have key: "propertyKey (elementAt A r) = A ! r"
    using r by (simp add: propertyKey_def elementAt_def)
  have "dom (snd (matchLoop A C T (Suc k) r m))
        = dom (m(A ! r \<mapsto> \<lparr>completed = elementAt C r, total = elementAt T r\<rparr>))
            \<union> set (take k (drop (Suc r) A))"
    by (simp only: matchLoop.simps key Suc.IH [OF rest])
  also have "\<dots> = dom m \<union> set (take (Suc k) (drop r A))"
    by (simp only: take_drop_step [OF r] dom_fun_upd) auto
  finally show ?case .
qed

lemma matchLoop_keeps:
  "r + k \<le> length A \<Longrightarrow> a \<notin> set (take k (drop r A)) \<Longrightarrow>
   snd (matchLoop A C T k r m) a = m a"
proof (induction k arbitrary: r m)
  case 0
  then show ?case by simp
next
  case (Suc k)
  then have r: "r < length A" and rest: "Suc r + k \<le> length A" by simp_all
  have key: "propertyKey (elementAt A r) = A ! r"
    using r by (simp add: propertyKey_def elementAt_def)
  from Suc.prems(2) have ne: "a \<noteq> A ! r" and notin: "a \<notin> set (take k (drop (Suc r) A))"
    by (simp_all add: take_drop_step [OF r])
  show ?case
    using Suc.IH [OF rest notin] ne by (simp add: key)
qed

lemma in_run:
  "n + k \<le> length A \<Longrightarrow> x \<in> set (take k (drop n A)) \<Longrightarrow> \<exists>i<k. x = A ! (n + i)"
proof -
  assume fits: "n + k \<le> length A" and x: "x \<in> set (take k (drop n A))"
  from x obtain i where i: "i < length (take k (drop n A))" and xi: "take k (drop n A) ! i = x"
    by (auto simp: in_set_conv_nth)
  from i fits have ik: "i < k" by simp
  with xi fits have "x = A ! (n + i)" by simp
  with ik show ?thesis by blast
qed

lemma matchLoop_entries:
  "r + k \<le> length A \<Longrightarrow> j < k \<Longrightarrow>
   \<forall>j'. j < j' \<and> j' < k \<longrightarrow> A ! (r + j') \<noteq> A ! (r + j) \<Longrightarrow>
   snd (matchLoop A C T k r m) (A ! (r + j))
     = Some \<lparr>completed = elementAt C (r + j), total = elementAt T (r + j)\<rparr>"
proof (induction k arbitrary: r m j)
  case 0
  then show ?case by simp
next
  case (Suc k)
  then have r: "r < length A" and rest: "Suc r + k \<le> length A" by simp_all
  have key: "propertyKey (elementAt A r) = A ! r"
    using r by (simp add: propertyKey_def elementAt_def)
  show ?case
  proof (cases j)
    case 0
    have notin: "A ! r \<notin> set (take k (drop (Suc r) A))"
    proof
      assume "A ! r \<in> set (take k (drop (Suc r) A))"
      from in_run [OF rest this] obtain i where i: "i < k" and eq: "A ! r = A ! (Suc r + i)"
        by blast
      from Suc.prems(3) [rule_format, of "Suc i"] 0 i have "A ! (r + Suc i) \<noteq> A ! r"
        by simp
      with eq show False by simp
    qed
    from 0 show ?thesis
      using matchLoop_keeps [OF rest notin] by (simp add: key)
  next
    case (Suc j')
    with Suc.prems(2) have lt: "j' < k" by simp
    have later: "\<forall>j''. j' < j'' \<and> j'' < k \<longrightarrow> A ! (Suc r + j'') \<noteq> A ! (Suc r + j')"
    proof (intro allI impI)
      fix j'' assume "j' < j'' \<and> j'' < k"
      then have "j < Suc j'' \<and> Suc j'' < Suc k" using Suc by simp
      with Suc.prems(3) have "A ! (r + Suc j'') \<noteq> A ! (r + j)" by blast
      then show "A ! (Suc r + j'') \<noteq> A ! (Suc r + j')" using Suc by simp
    qed
    from Suc.IH [OF rest lt later] Suc show ?thesis by simp
  qed
qed

lemma sum_list_take_le:
  fixes xs :: "nat list"
  shows "sum_list (take n xs) \<le> sum_list xs"
proof -
  have "sum_list xs = sum_list (take n xs) + sum_list (drop n xs)"
    by (metis append_take_drop_id sum_list_append)
  then show ?thesis by simp
qed

lemma cursorAt_Suc:
  "n < length ms \<Longrightarrow> cursorAt ms (Suc n) = cursorAt ms n + ms ! n"
  by (simp add: cursorAt_def take_Suc_conv_app_nth)

lemma lookup_invariant:
  assumes len: "length (stats0 S) = length ids"
  shows "n \<le> length ids \<Longrightarrow>
         fst (fold (lookupStep ids S) [0..<n] (0, Map.empty)) = cursorAt (stats0 S) n
       \<and> (\<forall>h. (\<forall>q<n. ids ! q = h \<longrightarrow> stats0 S ! q = 0) \<longrightarrow>
               snd (fold (lookupStep ids S) [0..<n] (0, Map.empty)) h = None)
       \<and> (\<forall>p<n. stats0 S ! p \<noteq> 0
               \<and> (\<forall>q. p < q \<and> q < n \<and> ids ! q = ids ! p \<longrightarrow> stats0 S ! q = 0) \<longrightarrow>
               snd (fold (lookupStep ids S) [0..<n] (0, Map.empty)) (ids ! p)
                 = Some (snd (matchLoop (stats1 S) (stats2 S) (stats3 S) (stats0 S ! p)
                                (cursorAt (stats0 S) p) Map.empty)))"
proof (induction n)
  case 0
  then show ?case by (simp add: cursorAt_def)
next
  case (Suc n)
  define F where "F = fold (lookupStep ids S) [0..<n] (0, Map.empty)"
  define M where "M p = snd (matchLoop (stats1 S) (stats2 S) (stats3 S) (stats0 S ! p)
                                (cursorAt (stats0 S) p) Map.empty)" for p
  from Suc.prems have n: "n < length ids" by simp
  then have nm: "n < length (stats0 S)" by (simp add: len)
  from Suc.IH n have c: "fst F = cursorAt (stats0 S) n"
    and z: "\<And>h. (\<forall>q<n. ids ! q = h \<longrightarrow> stats0 S ! q = 0) \<Longrightarrow> snd F h = None"
    and e: "\<And>p. p < n \<Longrightarrow> stats0 S ! p \<noteq> 0 \<Longrightarrow>
               (\<forall>q. p < q \<and> q < n \<and> ids ! q = ids ! p \<longrightarrow> stats0 S ! q = 0) \<Longrightarrow>
               snd F (ids ! p) = Some (M p)"
    by (simp_all add: F_def M_def)
  have at_n: "elementAt (stats0 S) n = Some (stats0 S ! n)"
    using nm by (simp add: elementAt_def)
  have step: "fold (lookupStep ids S) [0..<Suc n] (0, Map.empty) = lookupStep ids S n F"
    by (simp add: F_def)
  show ?case
  proof (cases "stats0 S ! n = 0")
    case True
    then have same: "lookupStep ids S n F = F"
      by (simp add: lookupStep_def at_n Let_def)
    have c': "fst F = cursorAt (stats0 S) (Suc n)"
      by (simp add: c cursorAt_Suc [OF nm] True)
    have z': "snd F h = None" if "\<forall>q<Suc n. ids ! q = h \<longrightarrow> stats0 S ! q = 0" for h
      using that by (intro z) simp
    have e': "snd F (ids ! p) = Some (M p)"
      if "p < Suc n" "stats0 S ! p \<noteq> 0"
         "\<forall>q. p < q \<and> q < Suc n \<and> ids ! q = ids ! p \<longrightarrow> stats0 S ! q = 0" for p
    proof -
      from that(1,2) True have "p < n" by (cases "p = n") auto
      then show ?thesis using that by (intro e) auto
    qed
    show ?thesis
      unfolding step same using c' z' e' by (simp add: M_def)
  next
    case False
    define r where "r = matchLoop (stats1 S) (stats2 S) (stats3 S) (stats0 S ! n) (fst F) Map.empty"
    have new: "lookupStep ids S n F = (fst r, (snd F)(ids ! n \<mapsto> snd r))"
      using False by (simp add: lookupStep_def at_n Let_def r_def)
    have rM: "snd r = M n"
      by (simp add: r_def M_def c)
    have c': "fst r = cursorAt (stats0 S) (Suc n)"
      by (simp add: r_def matchLoop_cursor c cursorAt_Suc [OF nm])
    have z': "((snd F)(ids ! n \<mapsto> snd r)) h = None"
      if "\<forall>q<Suc n. ids ! q = h \<longrightarrow> stats0 S ! q = 0" for h
    proof -
      from that False have "h \<noteq> ids ! n" by auto
      moreover have "snd F h = None" using that by (intro z) simp
      ultimately show ?thesis by simp
    qed
    have e': "((snd F)(ids ! n \<mapsto> snd r)) (ids ! p) = Some (M p)"
      if "p < Suc n" "stats0 S ! p \<noteq> 0"
         "\<forall>q. p < q \<and> q < Suc n \<and> ids ! q = ids ! p \<longrightarrow> stats0 S ! q = 0" for p
    proof (cases "p = n")
      case True
      then show ?thesis by (simp add: rM)
    next
      case neq: False
      with that(1) have pn: "p < n" by simp
      with that(3) False have "ids ! n \<noteq> ids ! p" by auto
      moreover have "snd F (ids ! p) = Some (M p)"
        using pn that by (intro e) auto
      ultimately show ?thesis by simp
    qed
    show ?thesis
      unfolding step new using c' z' e' by (simp add: M_def)
  qed
qed

text \<open>
  Claim C7. As the claim states it, "exactly \<open>i\<close> address entries" fails: the inner loop
  writes the record of an identifier by address, so an address that occurs twice among the
  flat entries of one identifier is overwritten. For a match count of 2 over the flat
  addresses \<open>''0xA1''\<close>, \<open>''0xA1''\<close> the identifier gets a record with one entry, the later one.
\<close>

theorem lookupIdentifiers_decodes_runs_counterexample:
  "stats0 (batchGetAttestationStats (contract demoKit) [''twice'']) ! 0 = 2
   \<and> stats1 (batchGetAttestationStats (contract demoKit) [''twice'']) = [''0xA1'', ''0xA1'']
   \<and> lookupIdentifiers demoKit [''twice''] ''twice''
        = Some [''0xA1'' \<mapsto> \<lparr>completed = Some 1, total = Some 2\<rparr>]
   \<and> card (dom (the (lookupIdentifiers demoKit [''twice''] ''twice''))) = 1
   \<and> card (dom (the (lookupIdentifiers demoKit [''twice''] ''twice''))) \<noteq> 2"
proof -
  have S: "batchGetAttestationStats (contract demoKit) [''twice'']
             = \<lparr>stats0 = [2], stats1 = [''0xA1'', ''0xA1''], stats2 = [3, 1], stats3 = [3, 2]\<rparr>"
    by (simp add: demoKit_def)
  have L: "lookupIdentifiers demoKit [''twice''] ''twice''
             = Some [''0xA1'' \<mapsto> \<lparr>completed = Some 1, total = Some 2\<rparr>]"
    by (simp add: lookupIdentifiers_def S lookupStep_def Let_def elementAt_def propertyKey_def
                  numeral_2_eq_2)
  show ?thesis
    by (simp add: S L)
qed

text \<open>
  Claim C7, amended. \<open>lookupIdentifiers\<close> decodes the four parallel arrays with one running
  cursor over the flat arrays, advanced by each identifier's match count in the order of
  the identifiers. Let the contract answer one count per identifier and at least as many
  addresses as the counts sum up to. An identifier whose count is 0 (at each of its
  positions) is absent from the result. An identifier at position \<open>p\<close> with the count
  \<open>i > 0\<close> (no later position of the same identifier having another non-zero count) gets the
  record decoded from the \<open>i\<close> flat entries that start at the cursor of \<open>p\<close>, the sum of the
  counts before \<open>p\<close>: its keys are the addresses of these entries, so it has at most \<open>i\<close>
  entries, and exactly \<open>i\<close> if and only if the \<open>i\<close> addresses are pairwise distinct; each
  address maps to the completed and total counts at its last flat position among them.
\<close>

theorem lookupIdentifiers_decodes_runs:
  fixes kit :: Kit and ids :: "string list" and p :: nat
  defines "S \<equiv> batchGetAttestationStats (contract kit) ids"
  defines "i \<equiv> stats0 (batchGetAttestationStats (contract kit) ids) ! p"
  defines "c \<equiv> cursorAt (stats0 (batchGetAttestationStats (contract kit) ids)) p"
  assumes len: "length (stats0 S) = length ids"
    and enough: "sum_list (stats0 S) \<le> length (stats1 S)"
    and p: "p < length ids"
  shows "((\<forall>q<length ids. ids ! q = ids ! p \<longrightarrow> stats0 S ! q = 0) \<longrightarrow>
            lookupIdentifiers kit ids (ids ! p) = None)
       \<and> (i \<noteq> 0 \<and> (\<forall>q. p < q \<and> q < length ids \<and> ids ! q = ids ! p \<longrightarrow> stats0 S ! q = 0)
            \<longrightarrow>
            (\<exists>m. lookupIdentifiers kit ids (ids ! p) = Some m
                \<and> dom m = set (take i (drop c (stats1 S)))
                \<and> card (dom m) \<le> i
                \<and> (card (dom m) = i) = distinct (take i (drop c (stats1 S)))
                \<and> (\<forall>j<i. (\<forall>j'. j < j' \<and> j' < i \<longrightarrow>
                               stats1 S ! (c + j') \<noteq> stats1 S ! (c + j)) \<longrightarrow>
                           m (stats1 S ! (c + j))
                             = Some \<lparr>completed = elementAt (stats2 S) (c + j),
                                     total = elementAt (stats3 S) (c + j)\<rparr>)))"
proof (intro conjI impI)
  have L: "lookupIdentifiers kit ids
             = snd (fold (lookupStep ids S) [0..<length ids] (0, Map.empty))"
    by (simp add: lookupIdentifiers_def S_def Let_def)
  note inv = lookup_invariant [OF len, of "length ids", simplified]
  {
    assume "\<forall>q<length ids. ids ! q = ids ! p \<longrightarrow> stats0 S ! q = 0"
    with inv show "lookupIdentifiers kit ids (ids ! p) = None"
      unfolding L by blast
  }
  {
    assume a: "i \<noteq> 0 \<and> (\<forall>q. p < q \<and> q < length ids \<and> ids ! q = ids ! p \<longrightarrow> stats0 S ! q = 0)"
    define m where "m = snd (matchLoop (stats1 S) (stats2 S) (stats3 S) i c Map.empty)"
    define run where "run = take i (drop c (stats1 S))"
    have pm: "p < length (stats0 S)" using p len by simp
    have "c + i = cursorAt (stats0 S) (Suc p)"
      by (simp add: c_def i_def S_def [symmetric] cursorAt_Suc [OF pm])
    also have "\<dots> \<le> sum_list (stats0 S)"
      by (simp add: cursorAt_def sum_list_take_le)
    finally have fits: "c + i \<le> length (stats1 S)"
      using enough by simp
    from a have "stats0 S ! p \<noteq> 0" by (simp add: i_def S_def)
    with inv p a have res: "lookupIdentifiers kit ids (ids ! p) = Some m"
      unfolding L m_def i_def c_def S_def [symmetric] by blast
    have d: "dom m = set run"
      unfolding m_def run_def by (simp add: matchLoop_dom [OF fits])
    have len_run: "length run = i"
      unfolding run_def using fits by simp
    have le: "card (dom m) \<le> i"
      unfolding d using card_length [of run] by (simp only: len_run)
    have iff: "(card (dom m) = i) = distinct run"
      unfolding d using card_distinct [of run] distinct_card [of run] len_run by auto
    have e: "\<forall>j<i. (\<forall>j'. j < j' \<and> j' < i \<longrightarrow> stats1 S ! (c + j') \<noteq> stats1 S ! (c + j)) \<longrightarrow>
                   m (stats1 S ! (c + j))
                     = Some \<lparr>completed = elementAt (stats2 S) (c + j),
                             total = elementAt (stats3 S) (c + j)\<rparr>"
      unfolding m_def using matchLoop_entries [OF fits] by blast
    from res d le iff e
    show "\<exists>m. lookupIdentifiers kit ids (ids ! p) = Some m
                \<and> dom m = set (take i (drop c (stats1 S)))
                \<and> card (dom m) \<le> i
                \<and> (card (dom m) = i) = distinct (take i (drop c (stats1 S)))
                \<and> (\<forall>j<i. (\<forall>j'. j < j' \<and> j' < i \<longrightarrow>
                               stats1 S ! (c + j') \<noteq> stats1 S ! (c + j)) \<longrightarrow>
                           m (stats1 S ! (c + j))
                             = Some \<lparr>completed = elementAt (stats2 S) (c + j),
                                     total = elementAt (stats3 S) (c + j)\<rparr>)"
      unfolding run_def by blast
  }
qed

theorem lookupIdentifiers_decodes_runs_witness:
  "stats0 (batchGetAttestationStats (contract demoKit) [''id1'', ''id2'']) = [2, 0]
   \<and> stats1 (batchGetAttestationStats (contract demoKit) [''id1'', ''id2'']) = [''0xA1'', ''0xA2'']
   \<and> (\<exists>m. lookupIdentifiers demoKit [''id1'', ''id2''] ''id1'' = Some m
          \<and> dom m = {''0xA1'', ''0xA2''}
          \<and> card (dom m) = 2
          \<and> m ''0xA1'' = Some \<lparr>completed = Some 3, total = Some 3\<rparr>
          \<and> m ''0xA2'' = Some \<lparr>completed = Some 1, total = Some 2\<rparr>)
   \<and> lookupIdentifiers demoKit [''id1'', ''id2''] ''id2'' = None"
proof -
  let ?ids = "[''id1'', ''id2'']"
  have S: "batchGetAttestationStats (contract demoKit) ?ids
             = \<lparr>stats0 = [2, 0], stats1 = [''0xA1'', ''0xA2''], stats2 = [3, 1], stats3 = [3, 2]\<rparr>"
    by (simp add: demoKit_def)
  have len: "length (stats0 (batchGetAttestationStats (contract demoKit) ?ids)) = length ?ids"
    by (simp add: S)
  have enough: "sum_list (stats0 (batchGetAttestationStats (contract demoKit) ?ids))
                  \<le> length (stats1 (batchGetAttestationStats (contract demoKit) ?ids))"
    by (simp add: S)
  have c0: "cursorAt [2, 0] 0 = 0" by (simp add: cursorAt_def)
  have first: "\<exists>m. lookupIdentifiers demoKit ?ids ''id1'' = Some m
                 \<and> dom m = {''0xA1'', ''0xA2''}
                 \<and> card (dom m) = 2
                 \<and> m ''0xA1'' = Some \<lparr>completed = Some 3, total = Some 3\<rparr>
                 \<and> m ''0xA2'' = Some \<lparr>completed = Some 1, total = Some 2\<rparr>"
  proof -
    have h: "stats0 (batchGetAttestationStats (contract demoKit) ?ids) ! 0 \<noteq> 0
             \<and> (\<forall>q. 0 < q \<and> q < length ?ids \<and> ?ids ! q = ?ids ! 0 \<longrightarrow>
                    stats0 (batchGetAttestationStats (contract demoKit) ?ids) ! q = 0)"
      by (auto simp: S less_Suc_eq numeral_2_eq_2)
    have p0: "0 < length ?ids" by simp
    from lookupIdentifiers_decodes_runs [OF len enough p0, THEN conjunct2, THEN mp, OF h]
    obtain m where m: "lookupIdentifiers demoKit ?ids ''id1'' = Some m"
      and d: "dom m = set (take 2 (drop 0 [''0xA1'', ''0xA2'']))"
      and k: "(card (dom m) = 2) = distinct (take 2 (drop 0 [''0xA1'', ''0xA2'']))"
      and e: "\<forall>j<2. (\<forall>j'. j < j' \<and> j' < 2 \<longrightarrow>
                       [''0xA1'', ''0xA2''] ! (0 + j') \<noteq> [''0xA1'', ''0xA2''] ! (0 + j)) \<longrightarrow>
                   m ([''0xA1'', ''0xA2''] ! (0 + j))
                   = Some \<lparr>completed = elementAt [3, 1] (0 + j), total = elementAt [3, 2] (0 + j)\<rparr>"
      by (auto simp: S c0)
    have z: "(0::nat) < 2" "(1::nat) < 2" by simp_all
    have l0: "\<forall>j'. 0 < j' \<and> j' < 2 \<longrightarrow>
                [''0xA1'', ''0xA2''] ! (0 + j') \<noteq> [''0xA1'', ''0xA2''] ! (0 + 0)"
      by (auto simp: less_Suc_eq numeral_2_eq_2)
    have l1: "\<forall>j'. 1 < j' \<and> j' < 2 \<longrightarrow>
                [''0xA1'', ''0xA2''] ! (0 + j') \<noteq> [''0xA1'', ''0xA2''] ! (0 + 1)"
      by auto
    from e z(1) l0
    have "m ([''0xA1'', ''0xA2''] ! (0 + 0))
            = Some \<lparr>completed = elementAt [3, 1] (0 + 0), total = elementAt [3, 2] (0 + 0)\<rparr>"
      by blast
    then have "m ''0xA1'' = Some \<lparr>completed = Some 3, total = Some 3\<rparr>"
      by (simp add: elementAt_def)
    moreover from e z(2) l1
    have "m ([''0xA1'', ''0xA2''] ! (0 + 1))
            = Some \<lparr>completed = elementAt [3, 1] (0 + 1), total = elementAt [3, 2] (0 + 1)\<rparr>"
      by blast
    then have "m ''0xA2'' = Some \<lparr>completed = Some 1, total = Some 2\<rparr>"
      by (simp add: elementAt_def)
    moreover from d have "dom m = {''0xA1'', ''0xA2''}" by simp
    moreover from k have "card (dom m) = 2" by simp
    ultimately show ?thesis using m by blast
  qed
  have second: "lookupIdentifiers demoKit ?ids ''id2'' = None"
  proof -
    have h: "\<forall>q<length ?ids. ?ids ! q = ?ids ! 1 \<longrightarrow>
               stats0 (batchGetAttestationStats (contract demoKit) ?ids) ! q = 0"
      by (auto simp: S less_Suc_eq numeral_2_eq_2)
    have p1: "1 < length ?ids" by simp
    from lookupIdentifiers_decodes_runs [OF len enough p1, THEN conjunct1, THEN mp, OF h]
    show ?thesis by simp
  qed
  from first second show ?thesis by (simp add: S)
qed

end
